theory Spec2Isabelle
  imports Complex_Main "HOL-Library.Sublist"
begin

section \<open>The run orchestrator of mobile-use (src/mobile\_use/main.py)\<close>

text \<open>
  A shallow embedding of \<^verbatim>\<open>run_servers\<close>, \<^verbatim>\<open>get_mobile_use_context\<close> and
  \<^verbatim>\<open>run_automation\<close>. The collaborators of the orchestrator (device bridge, screen
  API, planning engine, structured-output generator, trace compiler, file system, clock)
  are not part of the file; what they answer is given by an environment record, and what
  the orchestrator asks of them is recorded, in order, as a trail of events.

  Conventions.
  \<^item> Python truthiness is written out: \<^verbatim>\<open>if s\<close> on an optional string is
    \<open>truthy s\<close> (neither \<^verbatim>\<open>None\<close> nor the empty string).
  \<^item> A raised exception is a value of type \<open>exn\<close>, tagged by the collaborator that
    raised it. The collaborators that can raise in the model are the ones the
    orchestrator's control flow reacts to: the screen query, the planning-engine stream,
    the structured-output generator (whose exception is caught on the spot, so it is an
    error message and never an \<open>exn\<close>), the four trace-compiler steps and the rename.
  \<^item> The status poll of the bridge may run forever, so everything that polls returns an
    \<open>option\<close>: \<open>None\<close> is a call that never returns.
  \<^item> Logging is left out, except for the one line that carries the bridge's diagnostic
    output.
\<close>

subsection \<open>Data model\<close>

type_synonym path = string

text \<open>
  Modelled from the spec: the enum \<^verbatim>\<open>BridgeStatus\<close> of
  \<^verbatim>\<open>mobile_use.servers.device_hardware_bridge\<close>, with the six tags of the service
  status vocabulary.
\<close>

datatype BridgeStatus = STARTING | RUNNING | NO_DEVICE | FAILED | PORT_IN_USE | STOPPED

record StatusInfo =
  status :: BridgeStatus
  output_text :: "string option"

text \<open>
  Modelled from the spec: the enum \<^verbatim>\<open>DevicePlatform\<close> of \<^verbatim>\<open>mobile_use.context\<close>.
\<close>

datatype DevicePlatform = ANDROID | IOS

record ScreenDataResponse =
  platform :: string
  width :: int
  height :: int

record DeviceContext =
  host_platform :: string
  mobile_platform :: DevicePlatform
  device_id :: string
  device_width :: int
  device_height :: int

text \<open>
  Of \<^verbatim>\<open>MobileUseContext\<close> only the device description is kept: the clients and the
  execution set-up are handed to the graph and not read by the orchestrator.
\<close>

record MobileUseContext =
  device :: DeviceContext

datatype Message = AIMessage string | OtherMessage string

text \<open>The fields of \<^verbatim>\<open>State\<close> are the ones \<^verbatim>\<open>run_automation\<close> initialises.\<close>

record State =
  messages :: "Message list"
  initial_goal :: string
  subgoal_plan :: "string list"
  latest_ui_hierarchy :: "string option"
  latest_screenshot_base64 :: "string option"
  focused_app_info :: "string option"
  device_date :: "string option"
  structured_decisions :: "string option"
  agents_thoughts :: "string list"
  remaining_steps :: nat
  executor_retrigger :: bool
  executor_failed :: bool
  executor_messages :: "Message list"
  cortex_last_thought :: "string option"

text \<open>
  A chunk of the stream is a pair \<^verbatim>\<open>(stream_mode, content)\<close>; the three modes are the
  ones \<^verbatim>\<open>run_automation\<close> asks for (\<^verbatim>\<open>"messages"\<close>, \<^verbatim>\<open>"custom"\<close>,
  \<^verbatim>\<open>"values"\<close>), one constructor each. The content of a \<^verbatim>\<open>"values"\<close> chunk is the
  full state.
\<close>

datatype StreamChunk = Messages string | Custom string | Values State

type_synonym dict = "(string \<times> string) list"

record OutputConfig =
  output_description :: "string option"
  structured_output_format :: "string option"

datatype exn =
    ScreenQueryFailure string
  | StreamingFailure string
  | TraceFinalizationFailure string

text \<open>What \<^verbatim>\<open>run_automation\<close> hands back: a dict, a thought, or \<^verbatim>\<open>None\<close>.\<close>

datatype RunResult = Structured dict | Thought string | NoResult

datatype outcome = Returned RunResult | Raised exn

datatype event =
    PrepareOutputFiles
  | GetFirstDeviceId
  | RunServers string
  | StartDeviceHardwareBridge string
  | BridgeGetStatus
  | BridgeFailedLog BridgeStatus "string option"
  | Sleep nat
  | StartDeviceScreenApi
  | HealthCheck
  | StopServers bool bool
  | TerminateApiProcess
  | InitializeLlmConfig
  | GetScreenData
  | Mkdir path
  | GraphAstream State
  | LogAgentThoughts "string list" path
  | PrintStderr string
  | Outputter
  | CreateGif path
  | CreateStepsJson path
  | RemoveImages path
  | RemoveStepsJson path
  | Rename path path
  | AsyncSleep nat
  | RecordEvents path RunResult

subsection \<open>Truthiness\<close>

fun truthy :: "string option \<Rightarrow> bool" where
  "truthy None = False"
| "truthy (Some s) = (s \<noteq> [])"

subsection \<open>Service bootstrap: \<^verbatim>\<open>run_servers\<close>\<close>

record Settings =
  DEVICE_HARDWARE_BRIDGE_BASE_URL :: "string option"
  DEVICE_SCREEN_API_BASE_URL :: "string option"

text \<open>What \<^verbatim>\<open>start_device_screen_api(use_process=True)\<close> returns.\<close>

datatype ApiStart = NoProcess | NotAProcess | Process

text \<open>
  The answers of the collaborators during one call of \<^verbatim>\<open>run_servers\<close>:
  \<open>get_status k\<close> is what the \<open>k\<close>-th read of the bridge's status returns.
\<close>

record ServerEnv =
  bridge_instance :: bool
  get_status :: "nat \<Rightarrow> StatusInfo"
  api_process :: ApiStart
  health_ok :: bool

definition failed_statuses :: "BridgeStatus list" where
  "failed_statuses = [NO_DEVICE, FAILED, PORT_IN_USE, STOPPED]"

text \<open>
  The \<^verbatim>\<open>while True\<close> loop of \<^verbatim>\<open>run_servers\<close>: \<open>k\<close> counts the reads made so far,
  \<open>acc\<close> is the trail so far. \<open>True\<close> is the \<^verbatim>\<open>break\<close>, \<open>False\<close> the
  \<^verbatim>\<open>return False\<close>.
\<close>

partial_function (option) poll_bridge_status ::
  "(nat \<Rightarrow> StatusInfo) \<Rightarrow> nat \<Rightarrow> event list \<Rightarrow> (bool \<times> event list) option"
where
  "poll_bridge_status gs k acc =
     (if status (gs k) = RUNNING then Some (True, acc @ [BridgeGetStatus])
      else if status (gs k) \<in> set failed_statuses
        then Some (False, acc @ [BridgeGetStatus, BridgeFailedLog (status (gs k)) (output_text (gs k))])
      else poll_bridge_status gs (Suc k) (acc @ [BridgeGetStatus, Sleep 1]))"

definition check_device_screen_api_health_with_retry_logic ::
  "Settings \<Rightarrow> ServerEnv \<Rightarrow> bool \<times> event list" where
  "check_device_screen_api_health_with_retry_logic settings senv =
     (let restart_screen_api = \<not> truthy (DEVICE_SCREEN_API_BASE_URL settings);
          restart_hw_bridge = \<not> truthy (DEVICE_HARDWARE_BRIDGE_BASE_URL settings)
      in if health_ok senv then (True, [HealthCheck])
         else (False, [HealthCheck, StopServers restart_screen_api restart_hw_bridge]))"

text \<open>The part of \<^verbatim>\<open>run_servers\<close> after the bridge is connected.\<close>

definition start_screen_api_and_check ::
  "Settings \<Rightarrow> ServerEnv \<Rightarrow> event list \<Rightarrow> bool \<times> event list" where
  "start_screen_api_and_check settings senv acc =
     (if \<not> truthy (DEVICE_SCREEN_API_BASE_URL settings) \<and> api_process senv \<noteq> Process
      then (False, acc @ [StartDeviceScreenApi])
      else
        let started = \<not> truthy (DEVICE_SCREEN_API_BASE_URL settings);
            acc1 = (if started then acc @ [StartDeviceScreenApi] else acc);
            (healthy, evs) = check_device_screen_api_health_with_retry_logic settings senv
        in if \<not> healthy
           then (False, acc1 @ evs @ (if started then [TerminateApiProcess] else []))
           else (True, acc1 @ evs))"

definition run_servers ::
  "Settings \<Rightarrow> ServerEnv \<Rightarrow> string \<Rightarrow> (bool \<times> event list) option" where
  "run_servers settings senv dev =
     (if \<not> truthy (DEVICE_HARDWARE_BRIDGE_BASE_URL settings)
      then
        if \<not> bridge_instance senv then Some (False, [StartDeviceHardwareBridge dev])
        else
          (case poll_bridge_status (get_status senv) 0 [StartDeviceHardwareBridge dev] of
             None \<Rightarrow> None
           | Some (running, acc) \<Rightarrow>
               if running then Some (start_screen_api_and_check settings senv acc)
               else Some (False, acc))
      else Some (start_screen_api_and_check settings senv []))"


subsection \<open>The environment of a run\<close>

text \<open>
  \<open>attempts env k\<close> is what the collaborators answer during the call of
  \<^verbatim>\<open>run_servers\<close> made after \<open>k\<close> failed ones. The stream yields \<open>stream_chunks\<close>
  and then ends, or raises when \<open>stream_raises\<close> is set. \<open>start_time\<close> is the value
  of \<^verbatim>\<open>time.time()\<close>; the code only tests it for zero and formats it.
  \<^verbatim>\<open>OutputConfig.needs_structured_format\<close>, \<^verbatim>\<open>convert_timestamp_to_str\<close>,
  \<^verbatim>\<open>Path.resolve\<close> and the constant \<^verbatim>\<open>RECURSION_LIMIT\<close> are parameters.
\<close>

record Env =
  settings :: Settings
  events_output_path :: path
  results_output_path :: path
  first_device_id :: "string option"
  attempts :: "nat \<Rightarrow> ServerEnv"
  system_platform :: string
  screen_data :: "string + ScreenDataResponse"
  start_time :: real
  file_parent :: path
  resolve :: "path \<Rightarrow> path"
  convert_timestamp_to_str :: "real \<Rightarrow> string"
  stream_chunks :: "StreamChunk list"
  stream_raises :: "string option"
  needs_structured_format :: "OutputConfig \<Rightarrow> bool"
  outputter :: "OutputConfig \<Rightarrow> State \<Rightarrow> string + dict option"
  create_gif_fault :: "string option"
  create_steps_json_fault :: "string option"
  remove_images_fault :: "string option"
  remove_steps_json_fault :: "string option"
  rename_refused :: "string option"
  RECURSION_LIMIT :: nat

text \<open>
  The world a run changes: the trail of calls, the directories that exist, the durable
  event log (the file at \<open>events_output_path\<close>) and the number of thoughts of the
  running stream already written to it.
\<close>

record World =
  trail :: "event list"
  fs :: "path set"
  event_log :: "string list"
  high_water :: nat

definition emit :: "event list \<Rightarrow> World \<Rightarrow> World" where
  "emit evs w = w\<lparr>trail := trail w @ evs\<rparr>"

text \<open>Nothing has happened yet, and the accumulator of the stream is new.\<close>

definition fresh_world :: World where
  "fresh_world = \<lparr>trail = [], fs = {}, event_log = [], high_water = 0\<rparr>"

text \<open>An f-string prints \<^verbatim>\<open>None\<close> as the text \<^verbatim>\<open>None\<close>.\<close>

fun fstr :: "string option \<Rightarrow> string" where
  "fstr None = ''None''"
| "fstr (Some s) = s"

subsection \<open>The bootstrap retry loop of \<^verbatim>\<open>run_automation\<close>\<close>

definition max_restart_attempts :: nat where
  "max_restart_attempts = 3"

text \<open>
  The \<^verbatim>\<open>while restart_attempt < max_restart_attempts\<close> loop. \<open>True\<close>: the loop
  was left and the run goes on; \<open>False\<close>: the \<^verbatim>\<open>return\<close> after the last failed
  attempt.
\<close>

function bootstrap_loop ::
  "Settings \<Rightarrow> (nat \<Rightarrow> ServerEnv) \<Rightarrow> string \<Rightarrow> nat \<Rightarrow> event list \<Rightarrow> (bool \<times> event list) option"
where
  "bootstrap_loop st atts dev restart_attempt acc =
     (if restart_attempt < max_restart_attempts then
        (case run_servers st (atts restart_attempt) dev of
           None \<Rightarrow> None
         | Some (ok, evs) \<Rightarrow>
             if ok then Some (True, acc @ RunServers dev # evs)
             else if Suc restart_attempt < max_restart_attempts
               then bootstrap_loop st atts dev (Suc restart_attempt)
                      (acc @ RunServers dev # evs @ [Sleep 3])
               else Some (False, acc @ RunServers dev # evs))
      else Some (True, acc))"
  by pat_completeness auto
termination
  by (relation "measure (\<lambda>(st, atts, dev, restart_attempt, acc). max_restart_attempts - restart_attempt)")
     auto

declare bootstrap_loop.simps [simp del]

subsection \<open>Device context: \<^verbatim>\<open>get_mobile_use_context\<close>\<close>

definition get_mobile_use_context ::
  "string \<Rightarrow> string \<Rightarrow> string + ScreenDataResponse \<Rightarrow> (exn + MobileUseContext) \<times> event list" where
  "get_mobile_use_context dev host query =
     (case query of
        Inl m \<Rightarrow> (Inl (ScreenQueryFailure m), [GetScreenData])
      | Inr sd \<Rightarrow>
          (Inr \<lparr>device =
                 \<lparr>host_platform = (if host = ''Windows'' then ''WINDOWS'' else ''LINUX''),
                  mobile_platform = (if platform sd = ''ANDROID'' then ANDROID else IOS),
                  device_id = dev,
                  device_width = width sd,
                  device_height = height sd\<rparr>\<rparr>,
           [GetScreenData]))"

subsection \<open>Streaming\<close>

text \<open>
  Modelled from the spec: \<^verbatim>\<open>log_agent_thoughts\<close> of \<^verbatim>\<open>mobile_use.utils.recorder\<close>,
  which is not among the sources. It receives the cumulative thought list and appends to
  the durable event log the entries beyond the high-water mark of entries written.
\<close>

definition log_agent_thoughts :: "string list \<Rightarrow> path \<Rightarrow> World \<Rightarrow> World" where
  "log_agent_thoughts thoughts events_path w =
     w\<lparr>trail := trail w @ [LogAgentThoughts thoughts events_path],
       event_log := event_log w @ drop (high_water w) thoughts,
       high_water := max (high_water w) (length thoughts)\<rparr>"

text \<open>The body of the \<^verbatim>\<open>async for\<close> loop, over the chunks the stream yields.\<close>

fun consume_chunks :: "path \<Rightarrow> StreamChunk list \<Rightarrow> State option \<Rightarrow> World \<Rightarrow> State option \<times> World" where
  "consume_chunks p [] ls w = (ls, w)"
| "consume_chunks p (chunk # rest) ls w =
     (case chunk of
        Values content \<Rightarrow>
          consume_chunks p rest (Some content) (log_agent_thoughts (agents_thoughts content) p w)
      | Messages _ \<Rightarrow> consume_chunks p rest ls w
      | Custom _ \<Rightarrow> consume_chunks p rest ls w)"

fun print_first_ai :: "Message list \<Rightarrow> event list" where
  "print_first_ai [] = []"
| "print_first_ai (AIMessage c # _) = [PrintStderr c]"
| "print_first_ai (OtherMessage _ # rest) = print_first_ai rest"

definition print_ai_response_to_stderr :: "State \<Rightarrow> event list" where
  "print_ai_response_to_stderr graph_result = print_first_ai (rev (messages graph_result))"

text \<open>The state the graph is started with.\<close>

definition graph_input :: "nat \<Rightarrow> string \<Rightarrow> State" where
  "graph_input limit goal =
     \<lparr>messages = [],
      initial_goal = goal,
      subgoal_plan = [],
      latest_ui_hierarchy = None,
      latest_screenshot_base64 = None,
      focused_app_info = None,
      device_date = None,
      structured_decisions = None,
      agents_thoughts = [],
      remaining_steps = limit,
      executor_retrigger = False,
      executor_failed = False,
      executor_messages = [],
      cortex_last_thought = None\<rparr>"

text \<open>
  The local variables the \<^verbatim>\<open>try\<close> block leaves behind, and the way it is left:
  by falling through, by its \<^verbatim>\<open>return\<close>, or by the re-raise of the \<^verbatim>\<open>except\<close> clause.
\<close>

record Locals =
  success :: bool
  last_state :: "State option"
  structured_output :: "dict option"

datatype control = FallThrough | ReturnNone | Raise exn

definition generate_structured_output ::
  "Env \<Rightarrow> OutputConfig option \<Rightarrow> State \<Rightarrow> World \<Rightarrow> dict option \<times> World" where
  "generate_structured_output env output_config graph_result w =
     (case output_config of
        None \<Rightarrow> (None, w)
      | Some oc \<Rightarrow>
          if needs_structured_format env oc
          then (case outputter env oc graph_result of
                  Inl e \<Rightarrow> (None, emit [Outputter] w)
                | Inr d \<Rightarrow> (d, emit [Outputter] w))
          else (None, w))"

definition try_block :: "Env \<Rightarrow> string \<Rightarrow> OutputConfig option \<Rightarrow> World \<Rightarrow> control \<times> Locals \<times> World" where
  "try_block env goal output_config w =
     (let (ls, w1) = consume_chunks (events_output_path env) (stream_chunks env) None
                       (emit [GraphAstream (graph_input (RECURSION_LIMIT env) goal)] w)
      in case stream_raises env of
           Some m \<Rightarrow>
             (Raise (StreamingFailure m),
              \<lparr>success = False, last_state = ls, structured_output = None\<rparr>, w1)
         | None \<Rightarrow>
             (case ls of
                None \<Rightarrow>
                  (ReturnNone, \<lparr>success = False, last_state = None, structured_output = None\<rparr>, w1)
              | Some graph_result \<Rightarrow>
                  let w2 = emit (print_ai_response_to_stderr graph_result) w1;
                      (so, w3) = generate_structured_output env output_config graph_result w2
                  in (FallThrough,
                      \<lparr>success = True, last_state = Some graph_result, structured_output = so\<rparr>,
                      w3)))"

subsection \<open>Trace set-up and finalization\<close>

text \<open>
  \<^verbatim>\<open>Path.__truediv__\<close>: an absolute right operand replaces the left one.
\<close>

definition path_join :: "path \<Rightarrow> string \<Rightarrow> path" where
  "path_join p s = (case s of CHR ''/'' # _ \<Rightarrow> s | _ \<Rightarrow> p @ ''/'' @ s)"

text \<open>
  \<open>fs\<close> holds the directories the run names; \<^verbatim>\<open>mkdir(parents=True, exist_ok=True)\<close>
  makes its path exist.
\<close>

definition setup_traces ::
  "Env \<Rightarrow> string option \<Rightarrow> string \<Rightarrow> World \<Rightarrow> path option \<times> path option \<times> World" where
  "setup_traces env test_name traces_output_path_str w =
     (if truthy test_name then
        let traces_output_path = resolve env traces_output_path_str;
            traces_temp_path = resolve env (path_join (file_parent env) (''../traces/'' @ fstr test_name))
        in (Some traces_temp_path, Some traces_output_path,
            w\<lparr>trail := trail w @ [Mkdir traces_output_path, Mkdir traces_temp_path],
              fs := insert traces_temp_path (insert traces_output_path (fs w))\<rparr>)
      else (None, None, w))"

definition trace_status :: "bool \<Rightarrow> string" where
  "trace_status ok = (if ok then ''_PASS'' else ''_FAIL'')"

definition new_name :: "Env \<Rightarrow> string option \<Rightarrow> bool \<Rightarrow> string" where
  "new_name env test_name ok =
     fstr test_name @ trace_status ok @ ''_'' @ convert_timestamp_to_str env (start_time env)"

text \<open>A step of the trace compiler: the call is made, and it raises when its fault is set.\<close>

definition trace_step :: "event \<Rightarrow> string option \<Rightarrow> World \<Rightarrow> exn option \<times> World" where
  "trace_step ev fault w =
     (case fault of
        None \<Rightarrow> (None, emit [ev] w)
      | Some m \<Rightarrow> (Some (TraceFinalizationFailure m), emit [ev] w))"

text \<open>
  \<^verbatim>\<open>Path.rename\<close>: raises when the source does not exist or the operating system
  refuses; otherwise the source is gone and the target exists.
\<close>

definition rename_dir :: "Env \<Rightarrow> path \<Rightarrow> path \<Rightarrow> World \<Rightarrow> exn option \<times> World" where
  "rename_dir env src dst w =
     (if src \<notin> fs w
      then (Some (TraceFinalizationFailure ''FileNotFoundError''), emit [Rename src dst] w)
      else case rename_refused env of
             Some m \<Rightarrow> (Some (TraceFinalizationFailure m), emit [Rename src dst] w)
           | None \<Rightarrow> (None, (emit [Rename src dst] w)\<lparr>fs := insert dst (fs w - {src})\<rparr>))"

text \<open>Sequencing of statements that may raise.\<close>

definition and_then ::
  "exn option \<times> World \<Rightarrow> (World \<Rightarrow> exn option \<times> World) \<Rightarrow> exn option \<times> World" where
  "and_then r f = (case r of (None, w) \<Rightarrow> f w | (Some e, w) \<Rightarrow> (Some e, w))"

definition compile_and_move ::
  "Env \<Rightarrow> string option \<Rightarrow> path \<Rightarrow> path \<Rightarrow> bool \<Rightarrow> World \<Rightarrow> exn option \<times> World" where
  "compile_and_move env test_name traces_temp_path traces_output_path ok w =
     and_then (trace_step (CreateGif traces_temp_path) (create_gif_fault env) w) (\<lambda>w.
     and_then (trace_step (CreateStepsJson traces_temp_path) (create_steps_json_fault env) w) (\<lambda>w.
     and_then (trace_step (RemoveImages traces_temp_path) (remove_images_fault env) w) (\<lambda>w.
     and_then (trace_step (RemoveStepsJson traces_temp_path) (remove_steps_json_fault env) w) (\<lambda>w.
     rename_dir env traces_temp_path
       (path_join traces_output_path (new_name env test_name ok)) w))))"

text \<open>The \<^verbatim>\<open>finally\<close> block; \<open>Some e\<close> when the block itself raises.\<close>

definition finally_block ::
  "Env \<Rightarrow> string option \<Rightarrow> path option \<Rightarrow> path option \<Rightarrow> Locals \<Rightarrow> World \<Rightarrow> exn option \<times> World" where
  "finally_block env test_name traces_temp_path traces_output_path locals w =
     (case (traces_temp_path, traces_output_path) of
        (Some tmp, Some out) \<Rightarrow>
          if start_time env \<noteq> 0
          then and_then (compile_and_move env test_name tmp out (success locals) w)
                 (\<lambda>w. (None, emit [AsyncSleep 1] w))
          else (None, emit [AsyncSleep 1] w)
      | _ \<Rightarrow> (None, emit [AsyncSleep 1] w))"

subsection \<open>Result resolution\<close>

text \<open>
  The statements after the \<^verbatim>\<open>try\<close> statement. \<^verbatim>\<open>if structured_output\<close> holds for
  a dict that is neither \<^verbatim>\<open>None\<close> nor empty.
\<close>

definition resolve_output :: "Env \<Rightarrow> Locals \<Rightarrow> World \<Rightarrow> outcome \<times> World" where
  "resolve_output env locals w =
     (case structured_output locals of
        Some (kv # kvs) \<Rightarrow>
          (Returned (Structured (kv # kvs)),
           emit [RecordEvents (results_output_path env) (Structured (kv # kvs))] w)
      | _ \<Rightarrow>
          (case last_state locals of
             Some st \<Rightarrow>
               if agents_thoughts st \<noteq> []
               then (Returned (Thought (last (agents_thoughts st))),
                     emit [RecordEvents (results_output_path env) (Thought (last (agents_thoughts st)))] w)
               else (Returned NoResult, w)
           | None \<Rightarrow> (Returned NoResult, w)))"

subsection \<open>\<^verbatim>\<open>run_automation\<close>\<close>

text \<open>
  The \<^verbatim>\<open>try\<close> statement: an exception of the \<^verbatim>\<open>finally\<close> block replaces whatever
  the \<^verbatim>\<open>try\<close> block was about to do.
\<close>

definition try_finally ::
  "Env \<Rightarrow> string \<Rightarrow> string option \<Rightarrow> OutputConfig option \<Rightarrow> path option \<Rightarrow> path option \<Rightarrow> World
     \<Rightarrow> outcome \<times> World" where
  "try_finally env goal test_name output_config traces_temp_path traces_output_path w =
     (let (ctl, locals, w1) = try_block env goal output_config w;
          (fin, w2) = finally_block env test_name traces_temp_path traces_output_path locals w1
      in case fin of
           Some e \<Rightarrow> (Raised e, w2)
         | None \<Rightarrow>
             (case ctl of
                Raise e \<Rightarrow> (Raised e, w2)
              | ReturnNone \<Rightarrow> (Returned NoResult, w2)
              | FallThrough \<Rightarrow> resolve_output env locals w2))"

text \<open>From \<^verbatim>\<open>initialize_llm_config\<close> to the end, once the servers are up.\<close>

definition run_after_bootstrap ::
  "Env \<Rightarrow> string \<Rightarrow> string option \<Rightarrow> string \<Rightarrow> OutputConfig option \<Rightarrow> string \<Rightarrow> World
     \<Rightarrow> outcome \<times> World" where
  "run_after_bootstrap env goal test_name traces_output_path_str output_config dev w =
     (let (ctx, evs) = get_mobile_use_context dev (system_platform env) (screen_data env);
          w1 = emit (InitializeLlmConfig # evs) w
      in case ctx of
           Inl e \<Rightarrow> (Raised e, w1)
         | Inr context \<Rightarrow>
             let (traces_temp_path, traces_output_path, w2) =
                   setup_traces env test_name traces_output_path_str w1
             in try_finally env goal test_name output_config traces_temp_path traces_output_path w2)"

definition run_automation ::
  "Env \<Rightarrow> string \<Rightarrow> string option \<Rightarrow> string \<Rightarrow> OutputConfig option \<Rightarrow> World
     \<Rightarrow> (outcome \<times> World) option" where
  "run_automation env goal test_name traces_output_path_str output_config w =
     (let w0 = emit [PrepareOutputFiles, GetFirstDeviceId] w
      in if \<not> truthy (first_device_id env) then Some (Returned NoResult, w0)
         else
           (case bootstrap_loop (settings env) (attempts env) (fstr (first_device_id env)) 0 [] of
              None \<Rightarrow> None
            | Some (proceed, evs) \<Rightarrow>
                if proceed
                then Some (run_after_bootstrap env goal test_name traces_output_path_str
                             output_config (fstr (first_device_id env)) (emit evs w0))
                else Some (Returned NoResult, emit evs w0)))"

subsection \<open>Notions used to state the properties\<close>

text \<open>The payloads of the full-snapshot chunks of a stream, in the order of arrival.\<close>

fun snapshots :: "StreamChunk list \<Rightarrow> State list" where
  "snapshots [] = []"
| "snapshots (Values content # rest) = content # snapshots rest"
| "snapshots (Messages _ # rest) = snapshots rest"
| "snapshots (Custom _ # rest) = snapshots rest"

text \<open>
  A sequence of thought lists is cumulative from \<open>t\<close> when each list extends the one
  before it, the first one extending \<open>t\<close>.
\<close>

fun cumulative :: "string list \<Rightarrow> string list list \<Rightarrow> bool" where
  "cumulative t [] = True"
| "cumulative t (u # us) = (prefix t u \<and> cumulative u us)"

text \<open>What the loop logs for a stream: one call per snapshot, with the whole list.\<close>

definition thought_logs :: "path \<Rightarrow> StreamChunk list \<Rightarrow> event list" where
  "thought_logs p chunks = map (\<lambda>s. LogAgentThoughts (agents_thoughts s) p) (snapshots chunks)"

text \<open>
  The phases of a run, and the phase each event belongs to. Both sleeps of the
  bootstrap (one unit in the status poll, three units between attempts) are blocking
  \<^verbatim>\<open>time.sleep\<close> calls; the sleep of the \<^verbatim>\<open>finally\<close> block is an
  \<^verbatim>\<open>asyncio.sleep\<close>.
\<close>

datatype phase =
  RESOLVING_DEVICE | BOOTSTRAPPING | BUILDING_CONTEXT | STREAMING | FINALIZING_TRACE
  | RESOLVING_OUTPUT

fun phase_of :: "event \<Rightarrow> phase" where
  "phase_of PrepareOutputFiles = RESOLVING_DEVICE"
| "phase_of GetFirstDeviceId = RESOLVING_DEVICE"
| "phase_of (RunServers _) = BOOTSTRAPPING"
| "phase_of (StartDeviceHardwareBridge _) = BOOTSTRAPPING"
| "phase_of BridgeGetStatus = BOOTSTRAPPING"
| "phase_of (BridgeFailedLog _ _) = BOOTSTRAPPING"
| "phase_of (Sleep _) = BOOTSTRAPPING"
| "phase_of StartDeviceScreenApi = BOOTSTRAPPING"
| "phase_of HealthCheck = BOOTSTRAPPING"
| "phase_of (StopServers _ _) = BOOTSTRAPPING"
| "phase_of TerminateApiProcess = BOOTSTRAPPING"
| "phase_of InitializeLlmConfig = BUILDING_CONTEXT"
| "phase_of GetScreenData = BUILDING_CONTEXT"
| "phase_of (Mkdir _) = BUILDING_CONTEXT"
| "phase_of (GraphAstream _) = STREAMING"
| "phase_of (LogAgentThoughts _ _) = STREAMING"
| "phase_of (PrintStderr _) = STREAMING"
| "phase_of Outputter = STREAMING"
| "phase_of (CreateGif _) = FINALIZING_TRACE"
| "phase_of (CreateStepsJson _) = FINALIZING_TRACE"
| "phase_of (RemoveImages _) = FINALIZING_TRACE"
| "phase_of (RemoveStepsJson _) = FINALIZING_TRACE"
| "phase_of (Rename _ _) = FINALIZING_TRACE"
| "phase_of (AsyncSleep _) = FINALIZING_TRACE"
| "phase_of (RecordEvents _ _) = RESOLVING_OUTPUT"

text \<open>The events that touch a trace directory.\<close>

fun is_trace_event :: "event \<Rightarrow> bool" where
  "is_trace_event (Mkdir _) = True"
| "is_trace_event (CreateGif _) = True"
| "is_trace_event (CreateStepsJson _) = True"
| "is_trace_event (RemoveImages _) = True"
| "is_trace_event (RemoveStepsJson _) = True"
| "is_trace_event (Rename _ _) = True"
| "is_trace_event _ = False"

text \<open>The events one call of \<^verbatim>\<open>run_servers\<close> can leave.\<close>

fun server_event :: "event \<Rightarrow> bool" where
  "server_event (StartDeviceHardwareBridge _) = True"
| "server_event BridgeGetStatus = True"
| "server_event (BridgeFailedLog _ _) = True"
| "server_event (Sleep n) = (n = 1)"
| "server_event StartDeviceScreenApi = True"
| "server_event HealthCheck = True"
| "server_event (StopServers _ _) = True"
| "server_event TerminateApiProcess = True"
| "server_event _ = False"

text \<open>What a run has added to the trail of the world it started in.\<close>

definition new_events :: "World \<Rightarrow> World \<Rightarrow> event list" where
  "new_events w w' = drop (length (trail w)) (trail w')"

text \<open>
  The trail of \<open>n\<close> failed bootstrap attempts, each followed by the pause of three time
  units; \<open>evs k\<close> is what attempt \<open>k\<close> left.
\<close>

fun failed_attempts :: "string \<Rightarrow> (nat \<Rightarrow> event list) \<Rightarrow> nat \<Rightarrow> event list" where
  "failed_attempts dev evs 0 = []"
| "failed_attempts dev evs (Suc n) = failed_attempts dev evs n @ RunServers dev # evs n @ [Sleep 3]"

text \<open>The two trace directories of a run, and what finalization does to the first.\<close>

definition temp_dir :: "Env \<Rightarrow> string option \<Rightarrow> path" where
  "temp_dir env test_name =
     resolve env (path_join (file_parent env) (''../traces/'' @ fstr test_name))"

definition final_dir :: "Env \<Rightarrow> string \<Rightarrow> string option \<Rightarrow> bool \<Rightarrow> path" where
  "final_dir env traces_output_path_str test_name ok =
     path_join (resolve env traces_output_path_str) (new_name env test_name ok)"

definition finalization_events :: "Env \<Rightarrow> string \<Rightarrow> string option \<Rightarrow> bool \<Rightarrow> event list" where
  "finalization_events env traces_output_path_str test_name ok =
     [CreateGif (temp_dir env test_name),
      CreateStepsJson (temp_dir env test_name),
      RemoveImages (temp_dir env test_name),
      RemoveStepsJson (temp_dir env test_name),
      Rename (temp_dir env test_name) (final_dir env traces_output_path_str test_name ok)]"

text \<open>No step of the trace finalization raises.\<close>

definition no_finalization_fault :: "Env \<Rightarrow> bool" where
  "no_finalization_fault env =
     (create_gif_fault env = None \<and> create_steps_json_fault env = None \<and>
      remove_images_fault env = None \<and> remove_steps_json_fault env = None \<and>
      rename_refused env = None)"

text \<open>
  The run gets as far as the \<^verbatim>\<open>try\<close> statement: a device is found, the bootstrap
  loop is left with the servers up (leaving the events \<open>boot\<close>), and the screen query
  answers.
\<close>

definition reaches_streaming :: "Env \<Rightarrow> event list \<Rightarrow> ScreenDataResponse \<Rightarrow> bool" where
  "reaches_streaming env boot sd =
     (truthy (first_device_id env) \<and>
      bootstrap_loop (settings env) (attempts env) (fstr (first_device_id env)) 0 [] =
        Some (True, boot) \<and>
      screen_data env = Inr sd)"

text \<open>The world when the \<^verbatim>\<open>try\<close> statement is entered, for a run that gets there.\<close>

definition context_events :: "Env \<Rightarrow> string option \<Rightarrow> string \<Rightarrow> event list" where
  "context_events env test_name traces_output_path_str =
     [InitializeLlmConfig, GetScreenData] @
     (if truthy test_name
      then [Mkdir (resolve env traces_output_path_str), Mkdir (temp_dir env test_name)]
      else [])"

text \<open>
  An environment for concrete runs: nothing is preconfigured, the bridge is running at
  the first read, the stream yields tokens and two snapshots, nothing fails.
\<close>

definition reference_env :: Env where
  "reference_env =
     \<lparr>settings = \<lparr>DEVICE_HARDWARE_BRIDGE_BASE_URL = None, DEVICE_SCREEN_API_BASE_URL = None\<rparr>,
      events_output_path = ''events.json'',
      results_output_path = ''results.json'',
      first_device_id = Some ''emulator-5554'',
      attempts = (\<lambda>k. \<lparr>bridge_instance = True,
                        get_status = (\<lambda>n. \<lparr>status = RUNNING, output_text = None\<rparr>),
                        api_process = Process,
                        health_ok = True\<rparr>),
      system_platform = ''Linux'',
      screen_data = Inr \<lparr>platform = ''ANDROID'', width = 1080, height = 2400\<rparr>,
      start_time = 1730000000,
      file_parent = ''/app/mobile_use'',
      resolve = (\<lambda>p. p),
      convert_timestamp_to_str = (\<lambda>t. ''2024-10-27_03-33-20''),
      stream_chunks =
        [Messages ''token'',
         Values ((graph_input 400 ''open settings'')\<lparr>agents_thoughts := [''tap the icon'']\<rparr>),
         Custom ''progress'',
         Values ((graph_input 400 ''open settings'')
                   \<lparr>messages := [AIMessage ''done''],
                    agents_thoughts := [''tap the icon'', ''settings is open'']\<rparr>)],
      stream_raises = None,
      needs_structured_format = (\<lambda>oc. truthy (output_description oc)),
      outputter = (\<lambda>oc st. Inr (Some [(''screen'', ''settings'')])),
      create_gif_fault = None,
      create_steps_json_fault = None,
      remove_images_fault = None,
      remove_steps_json_fault = None,
      rename_refused = None,
      RECURSION_LIMIT = 400\<rparr>"

text \<open>
  What may follow the bootstrap in the trail of a run: no event of the first two phases,
  an event on a trace directory only when the run is traced, a write to the results sink
  only when the stream has not raised.
\<close>

definition post_bootstrap_event :: "bool \<Rightarrow> bool \<Rightarrow> event \<Rightarrow> bool" where
  "post_bootstrap_event traced raised e =
     (phase_of e \<noteq> RESOLVING_DEVICE \<and> phase_of e \<noteq> BOOTSTRAPPING \<and>
      (\<not> traced \<longrightarrow> \<not> is_trace_event e) \<and>
      (raised \<longrightarrow> phase_of e \<noteq> RESOLVING_OUTPUT))"

text \<open>The run reaches its success checkpoint: the stream ends, and a snapshot was seen.\<close>

definition run_succeeds :: "Env \<Rightarrow> bool" where
  "run_succeeds env = (stream_raises env = None \<and> snapshots (stream_chunks env) \<noteq> [])"

text \<open>Calls of \<^verbatim>\<open>run_servers\<close> in a trail.\<close>

fun is_attempt :: "event \<Rightarrow> bool" where
  "is_attempt (RunServers _) = True"
| "is_attempt _ = False"

definition attempts_made :: "event list \<Rightarrow> nat" where
  "attempts_made evs = length (filter is_attempt evs)"

text \<open>
  The result the output resolver is to give, in the words of its contract: the
  structured output when one was produced, else the most recent recorded thought when
  there is one, else nothing.
\<close>

fun expected_result :: "dict option \<Rightarrow> string list \<Rightarrow> RunResult" where
  "expected_result (Some (kv # kvs)) thoughts = Structured (kv # kvs)"
| "expected_result _ [] = NoResult"
| "expected_result _ (t # ts) = Thought (last (t # ts))"

text \<open>The reference environment, except that no bridge starts before attempt \<open>n\<close>.\<close>

definition bridge_fails_until :: "nat \<Rightarrow> Env" where
  "bridge_fails_until n =
     reference_env\<lparr>attempts := (\<lambda>k. (attempts reference_env k)\<lparr>bridge_instance := (n \<le> k)\<rparr>)\<rparr>"

text \<open>The reference environment, except that the stream raises after its last chunk.\<close>

definition crashing_env :: Env where
  "crashing_env = reference_env\<lparr>stream_raises := Some ''planner crashed''\<rparr>"

text \<open>The reference environment, except that the structured-output generator raises.\<close>

definition failing_outputter_env :: Env where
  "failing_outputter_env = reference_env\<lparr>outputter := (\<lambda>oc st. Inl ''no schema'')\<rparr>"

section \<open>Verification\<close>

subsection \<open>The status poll of the bridge\<close>

lemma failed_statuses_iff:
  "s \<in> set failed_statuses \<longleftrightarrow> s \<noteq> STARTING \<and> s \<noteq> RUNNING"
  by (cases s) (simp_all add: failed_statuses_def)

lemma poll_terminal:
  assumes "\<forall>j. k \<le> j \<and> j < n \<longrightarrow> status (gs j) = STARTING"
    and "status (gs n) \<noteq> STARTING" and "k \<le> n"
  shows "poll_bridge_status gs k acc =
           Some (status (gs n) = RUNNING,
                 acc @ concat (replicate (n - k) [BridgeGetStatus, Sleep 1]) @
                 BridgeGetStatus #
                 (if status (gs n) = RUNNING then []
                  else [BridgeFailedLog (status (gs n)) (output_text (gs n))]))"
  using assms
proof (induction "n - k" arbitrary: k acc)
  case 0
  then have "k = n" by simp
  with 0 show ?case
    by (subst poll_bridge_status.simps) (simp add: failed_statuses_iff)
next
  case (Suc d)
  then have st: "status (gs k) = STARTING" and d: "d = n - Suc k" and le: "Suc k \<le> n"
    by auto
  have rest: "\<forall>j. Suc k \<le> j \<and> j < n \<longrightarrow> status (gs j) = STARTING"
    using Suc.prems(1) by auto
  have rep: "n - k = Suc (n - Suc k)" using le by simp
  show ?case
    by (subst poll_bridge_status.simps)
       (simp add: st failed_statuses_iff Suc.hyps(1)[OF d rest Suc.prems(2) le] rep)
qed

lemma poll_returns_terminal:
  assumes ret: "poll_bridge_status gs k acc = Some r"
  shows "\<exists>j\<ge>k. status (gs j) \<noteq> STARTING"
proof (rule poll_bridge_status.raw_induct
    [where P = "\<lambda>g i a y. \<exists>j\<ge>i. status (g j) \<noteq> STARTING", OF _ ret])
  fix poll :: "(nat \<Rightarrow> StatusInfo) \<Rightarrow> nat \<Rightarrow> event list \<Rightarrow> (bool \<times> event list) option"
    and g i a y
  assume IH: "\<And>g i a y. poll g i a = Some y \<Longrightarrow> \<exists>j\<ge>i. status (g j) \<noteq> STARTING"
    and body: "(if status (g i) = RUNNING then Some (True, a @ [BridgeGetStatus])
      else if status (g i) \<in> set failed_statuses
           then Some (False, a @ [BridgeGetStatus, BridgeFailedLog (status (g i)) (output_text (g i))])
           else poll g (Suc i) (a @ [BridgeGetStatus, Sleep 1])) = Some y"
  show "\<exists>j\<ge>i. status (g j) \<noteq> STARTING"
  proof (cases "status (g i) = STARTING")
    case True
    with body have "poll g (Suc i) (a @ [BridgeGetStatus, Sleep 1]) = Some y"
      by (simp add: failed_statuses_iff)
    then obtain j where "Suc i \<le> j" and "status (g j) \<noteq> STARTING"
      using IH by blast
    then show ?thesis using Suc_leD by blast
  next
    case False
    then show ?thesis by blast
  qed
qed

lemma poll_forever:
  "\<forall>j\<ge>k. status (gs j) = STARTING \<Longrightarrow> poll_bridge_status gs k acc = None"
  using poll_returns_terminal[of gs k acc] by (cases "poll_bridge_status gs k acc") auto



text \<open>
  Claim C8. The poll reads the status once per iteration and sleeps one time unit
  between two reads. If the \<open>n\<close> first reads say \<open>STARTING\<close> and read \<open>n\<close> says
  \<open>RUNNING\<close> or one of \<open>NO_DEVICE\<close>, \<open>FAILED\<close>, \<open>PORT_IN_USE\<close>, \<open>STOPPED\<close>,
  the poll returns after exactly \<open>n + 1\<close> reads and \<open>n\<close> sleeps: with success for
  \<open>RUNNING\<close>, with failure and a log line carrying the status and the diagnostic
  output otherwise; no read follows the terminal one. A bridge that says \<open>STARTING\<close>
  at every read is polled forever: the poll, and \<^verbatim>\<open>run_servers\<close> with it, never
  returns.
\<close>

theorem poll_bridge_status_until_terminal:
  "((\<forall>j<n. status (gs j) = STARTING) \<and>
    status (gs n) \<in> {RUNNING, NO_DEVICE, FAILED, PORT_IN_USE, STOPPED} \<longrightarrow>
      poll_bridge_status gs 0 acc =
        Some (status (gs n) = RUNNING,
              acc @ concat (replicate n [BridgeGetStatus, Sleep 1]) @
              BridgeGetStatus #
              (if status (gs n) = RUNNING then []
               else [BridgeFailedLog (status (gs n)) (output_text (gs n))])))
   \<and> ((\<forall>j. status (gs j) = STARTING) \<longrightarrow>
         poll_bridge_status gs 0 acc = None \<and>
         (\<not> truthy (DEVICE_HARDWARE_BRIDGE_BASE_URL st) \<and> bridge_instance senv \<and>
          get_status senv = gs \<longrightarrow> run_servers st senv dev = None))"
proof (intro conjI impI)
  assume h: "(\<forall>j<n. status (gs j) = STARTING) \<and>
    status (gs n) \<in> {RUNNING, NO_DEVICE, FAILED, PORT_IN_USE, STOPPED}"
  then have "status (gs n) \<noteq> STARTING" by auto
  with h show "poll_bridge_status gs 0 acc =
        Some (status (gs n) = RUNNING,
              acc @ concat (replicate n [BridgeGetStatus, Sleep 1]) @
              BridgeGetStatus #
              (if status (gs n) = RUNNING then []
               else [BridgeFailedLog (status (gs n)) (output_text (gs n))]))"
    using poll_terminal[of 0 n gs acc] by simp
next
  assume "\<forall>j. status (gs j) = STARTING"
  then show "poll_bridge_status gs 0 acc = None"
    by (simp add: poll_forever)
next
  assume all: "\<forall>j. status (gs j) = STARTING"
    and cfg: "\<not> truthy (DEVICE_HARDWARE_BRIDGE_BASE_URL st) \<and> bridge_instance senv \<and>
          get_status senv = gs"
  from all have "poll_bridge_status gs 0 [StartDeviceHardwareBridge dev] = None"
    by (simp add: poll_forever)
  with cfg show "run_servers st senv dev = None"
    by (simp add: run_servers_def)
qed


theorem poll_bridge_status_until_terminal_witness:
  "poll_bridge_status
     (\<lambda>k. if k < 2 then \<lparr>status = STARTING, output_text = None\<rparr>
          else \<lparr>status = NO_DEVICE, output_text = Some ''no device''\<rparr>) 0 [] =
     Some (False, [BridgeGetStatus, Sleep 1, BridgeGetStatus, Sleep 1, BridgeGetStatus,
                   BridgeFailedLog NO_DEVICE (Some ''no device'')])
   \<and> poll_bridge_status (\<lambda>k. \<lparr>status = STARTING, output_text = None\<rparr>) 0 [] = None
   \<and> run_servers \<lparr>DEVICE_HARDWARE_BRIDGE_BASE_URL = None, DEVICE_SCREEN_API_BASE_URL = None\<rparr>
        \<lparr>bridge_instance = True, get_status = (\<lambda>k. \<lparr>status = STARTING, output_text = None\<rparr>),
         api_process = Process, health_ok = True\<rparr> ''emulator-5554'' = None"
  using poll_bridge_status_until_terminal[of 2
          "\<lambda>k. if k < 2 then \<lparr>status = STARTING, output_text = None\<rparr>
               else \<lparr>status = NO_DEVICE, output_text = Some ''no device''\<rparr>" "[]"]
        poll_bridge_status_until_terminal[of 0
          "\<lambda>k. \<lparr>status = STARTING, output_text = None\<rparr>" "[]"
          "\<lparr>DEVICE_HARDWARE_BRIDGE_BASE_URL = None, DEVICE_SCREEN_API_BASE_URL = None\<rparr>"
          "\<lparr>bridge_instance = True, get_status = (\<lambda>k. \<lparr>status = STARTING, output_text = None\<rparr>),
            api_process = Process, health_ok = True\<rparr>" "''emulator-5554''"]
  by (simp add: numeral_2_eq_2)


subsection \<open>Device context\<close>

text \<open>
  Claim C9. Building the device context makes exactly one screen-data query, also when
  the query fails. The mobile platform is \<open>ANDROID\<close> exactly when the reported
  platform string is \<^verbatim>\<open>"ANDROID"\<close> and \<open>IOS\<close> for every other string; the host
  platform is \<^verbatim>\<open>"WINDOWS"\<close> exactly when the host system string is \<^verbatim>\<open>"Windows"\<close>
  and \<^verbatim>\<open>"LINUX"\<close> for every other string.
\<close>

theorem get_mobile_use_context_tags:
  "snd (get_mobile_use_context dev host query) = [GetScreenData]
   \<and> get_mobile_use_context dev host (Inl m) = (Inl (ScreenQueryFailure m), [GetScreenData])
   \<and> (\<exists>ctx. get_mobile_use_context dev host (Inr sd) = (Inr ctx, [GetScreenData])
        \<and> (mobile_platform (device ctx) = ANDROID) = (platform sd = ''ANDROID'')
        \<and> (mobile_platform (device ctx) = IOS) = (platform sd \<noteq> ''ANDROID'')
        \<and> (host_platform (device ctx) = ''WINDOWS'') = (host = ''Windows'')
        \<and> (host_platform (device ctx) = ''LINUX'') = (host \<noteq> ''Windows'')
        \<and> device_id (device ctx) = dev
        \<and> device_width (device ctx) = width sd \<and> device_height (device ctx) = height sd)"
  by (cases query) (simp_all add: get_mobile_use_context_def)

theorem get_mobile_use_context_tags_witness:
  "\<exists>ctx. get_mobile_use_context ''emulator-5554'' ''Darwin''
            (Inr \<lparr>platform = ''android'', width = 1080, height = 2400\<rparr>) = (Inr ctx, [GetScreenData])
        \<and> mobile_platform (device ctx) = IOS \<and> host_platform (device ctx) = ''LINUX''"
  using get_mobile_use_context_tags[of "''emulator-5554''" "''Darwin''" "Inl []" "[]"
          "\<lparr>platform = ''android'', width = 1080, height = 2400\<rparr>"]
  by auto

subsection \<open>The run state and the event log during streaming\<close>

lemma consume_chunks_last_state:
  "fst (consume_chunks p chunks ls w) =
     (if snapshots chunks = [] then ls else Some (last (snapshots chunks)))"
proof (induction chunks arbitrary: ls w)
  case Nil
  show ?case by simp
next
  case (Cons chunk chunks)
  show ?case by (cases chunk) (simp_all add: Cons.IH)
qed

lemma consume_chunks_no_snapshot:
  "snapshots chunks = [] \<Longrightarrow> consume_chunks p chunks ls w = (ls, w)"
proof (induction chunks)
  case Nil
  show ?case by simp
next
  case (Cons chunk chunks)
  then show ?case by (cases chunk) simp_all
qed

lemma try_block_last_state:
  "last_state (fst (snd (try_block env goal oc w))) =
     (if snapshots (stream_chunks env) = [] then None
      else Some (last (snapshots (stream_chunks env))))"
proof -
  obtain ls w1 where c: "consume_chunks (events_output_path env) (stream_chunks env) None
      (emit [GraphAstream (graph_input (RECURSION_LIMIT env) goal)] w) = (ls, w1)"
    by (cases "consume_chunks (events_output_path env) (stream_chunks env) None
      (emit [GraphAstream (graph_input (RECURSION_LIMIT env) goal)] w)")
  have ls: "ls = (if snapshots (stream_chunks env) = [] then None
      else Some (last (snapshots (stream_chunks env))))"
    using consume_chunks_last_state[of "events_output_path env" "stream_chunks env" None
        "emit [GraphAstream (graph_input (RECURSION_LIMIT env) goal)] w"] c by simp
  show ?thesis
    unfolding try_block_def c using ls
    by (simp add: Let_def split: option.splits prod.splits)
qed

text \<open>
  Claim C5. After the loop has consumed any finite list of chunks, the run state is the
  payload of the last \<^verbatim>\<open>"values"\<close> chunk, whole, and the state held before when there
  was none; a tokens or custom-event chunk changes neither the state nor anything else.
  The \<^verbatim>\<open>last_state\<close> the \<^verbatim>\<open>try\<close> block leaves behind is that state, however the
  block is left.
\<close>

theorem run_state_is_last_snapshot:
  "fst (consume_chunks p chunks ls w) =
     (if snapshots chunks = [] then ls else Some (last (snapshots chunks)))
   \<and> consume_chunks p (Messages t # chunks) ls w = consume_chunks p chunks ls w
   \<and> consume_chunks p (Custom c # chunks) ls w = consume_chunks p chunks ls w
   \<and> consume_chunks p (chunks @ [Values s]) ls w =
       (Some s, log_agent_thoughts (agents_thoughts s) p (snd (consume_chunks p chunks ls w)))
   \<and> last_state (fst (snd (try_block env goal oc w))) =
       (if snapshots (stream_chunks env) = [] then None
        else Some (last (snapshots (stream_chunks env))))"
proof -
  have app: "consume_chunks p (chunks @ [Values s]) ls w =
       (Some s, log_agent_thoughts (agents_thoughts s) p (snd (consume_chunks p chunks ls w)))"
  proof (induction chunks arbitrary: ls w)
    case Nil
    show ?case by simp
  next
    case (Cons chunk chunks)
    show ?case by (cases chunk) (simp_all add: Cons.IH)
  qed
  show ?thesis
    using consume_chunks_last_state[of p chunks ls w] try_block_last_state[of env goal oc w] app
    by simp
qed

theorem run_state_is_last_snapshot_witness:
  "fst (consume_chunks ''events.json''
      [Values ((graph_input 400 ''open settings'')
                 \<lparr>agents_thoughts := [''tap the icon''], executor_failed := True\<rparr>),
       Custom ''progress'',
       Values (graph_input 7 ''open settings''),
       Messages ''token'']
      None fresh_world) = Some (graph_input 7 ''open settings'')"
  using run_state_is_last_snapshot[of "''events.json''"
      "[Values ((graph_input 400 ''open settings'')
                 \<lparr>agents_thoughts := [''tap the icon''], executor_failed := True\<rparr>),
       Custom ''progress'',
       Values (graph_input 7 ''open settings''),
       Messages ''token'']" None fresh_world]
  by simp

lemma cumulative_last: "cumulative t us \<Longrightarrow> prefix t (last (t # us))"
proof (induction us arbitrary: t)
  case Nil
  show ?case by simp
next
  case (Cons u us)
  then have "prefix t u" and "prefix u (last (u # us))" by simp_all
  then show ?case by (auto intro: prefix_order.trans)
qed

lemma drop_prefix_chain:
  assumes "prefix t u" and "prefix u l"
  shows "drop (length t) u @ drop (length u) l = drop (length t) l"
proof -
  from assms obtain a b where "u = t @ a" and "l = u @ b" by (auto simp: prefix_def)
  then show ?thesis by simp
qed

lemma consume_chunks_event_log:
  assumes "high_water w = length t"
    and "cumulative t (map agents_thoughts (snapshots chunks))"
  shows "event_log (snd (consume_chunks p chunks ls w)) =
           event_log w @ drop (length t) (last (t # map agents_thoughts (snapshots chunks)))
         \<and> high_water (snd (consume_chunks p chunks ls w)) =
           length (last (t # map agents_thoughts (snapshots chunks)))"
  using assms
proof (induction chunks arbitrary: w t ls)
  case Nil
  then show ?case by simp
next
  case (Cons chunk chunks)
  show ?case
  proof (cases chunk)
    case (Values s)
    let ?u = "agents_thoughts s"
    let ?w = "log_agent_thoughts ?u p w"
    from Cons.prems Values have pre: "prefix t ?u"
      and cum: "cumulative ?u (map agents_thoughts (snapshots chunks))" by simp_all
    from pre have len: "length t \<le> length ?u" by (rule prefix_length_le)
    have hw: "high_water ?w = length ?u"
      using Cons.prems(1) len by (simp add: log_agent_thoughts_def)
    have lg: "event_log ?w = event_log w @ drop (length t) ?u"
      using Cons.prems(1) by (simp add: log_agent_thoughts_def)
    note IH = Cons.IH[OF hw cum, of "Some s"]
    have pl: "prefix ?u (last (?u # map agents_thoughts (snapshots chunks)))"
      using cum by (rule cumulative_last)
    show ?thesis
      using IH lg drop_prefix_chain[OF pre pl] Values by simp
  next
    case (Messages m)
    with Cons show ?thesis by simp
  next
    case (Custom m)
    with Cons show ?thesis by simp
  qed
qed

lemma emit_event_log [simp]: "event_log (emit evs w) = event_log w"
  and emit_high_water [simp]: "high_water (emit evs w) = high_water w"
  and emit_fs [simp]: "fs (emit evs w) = fs w"
  and emit_trail [simp]: "trail (emit evs w) = trail w @ evs"
  by (simp_all add: emit_def)

lemma generate_structured_output_event_log [simp]:
  "event_log (snd (generate_structured_output env oc st w)) = event_log w"
  by (simp add: generate_structured_output_def split: option.splits sum.splits)

text \<open>
  Claim C4. Every snapshot carries the whole thought list so far, and the loop hands that
  whole list to \<^verbatim>\<open>log_agent_thoughts\<close> each time. With the high-water mark at zero when
  the stream starts and the thought lists of the snapshots cumulative, the durable event
  log gains exactly the thought list of the last snapshot: every entry once, whatever the
  number of snapshots. The high-water mark ends at the number of entries written, and
  logging the same list a second time writes nothing.
\<close>

theorem thoughts_logged_once:
  assumes "high_water w = 0"
    and "cumulative [] (map agents_thoughts (snapshots chunks))"
  shows "event_log (snd (consume_chunks p chunks ls w)) =
           event_log w @ last ([] # map agents_thoughts (snapshots chunks))
         \<and> high_water (snd (consume_chunks p chunks ls w)) =
           length (last ([] # map agents_thoughts (snapshots chunks)))
         \<and> event_log (log_agent_thoughts ts p (log_agent_thoughts ts p w')) =
           event_log (log_agent_thoughts ts p w')"
proof -
  have a: "event_log (snd (consume_chunks p chunks ls w)) =
           event_log w @ last ([] # map agents_thoughts (snapshots chunks))
         \<and> high_water (snd (consume_chunks p chunks ls w)) =
           length (last ([] # map agents_thoughts (snapshots chunks)))"
    using consume_chunks_event_log[of w "[]" chunks p ls] assms by simp
  have b: "event_log (log_agent_thoughts ts p (log_agent_thoughts ts p w')) =
           event_log (log_agent_thoughts ts p w')"
    by (simp add: log_agent_thoughts_def)
  from a b show ?thesis by blast
qed

theorem thoughts_logged_once_witness:
  "event_log (snd (consume_chunks ''events.json''
      [Values ((graph_input 400 ''open settings'')\<lparr>agents_thoughts := [''tap the icon'']\<rparr>),
       Messages ''token'',
       Values ((graph_input 400 ''open settings'')
                 \<lparr>agents_thoughts := [''tap the icon'', ''settings is open'']\<rparr>)]
      None fresh_world)) = [''tap the icon'', ''settings is open'']"
  using thoughts_logged_once[of fresh_world
      "[Values ((graph_input 400 ''open settings'')\<lparr>agents_thoughts := [''tap the icon'']\<rparr>),
       Messages ''token'',
       Values ((graph_input 400 ''open settings'')
                 \<lparr>agents_thoughts := [''tap the icon'', ''settings is open'']\<rparr>)]"
      "''events.json''" None]
  by (simp add: fresh_world_def)

subsection \<open>What each stage of a run does to the world\<close>

lemma new_events_append [simp]: "trail w' = trail w @ evs \<Longrightarrow> new_events w w' = evs"
  by (simp add: new_events_def)

lemma log_agent_thoughts_fs [simp]: "fs (log_agent_thoughts ts p w) = fs w"
  and log_agent_thoughts_trail [simp]:
    "trail (log_agent_thoughts ts p w) = trail w @ [LogAgentThoughts ts p]"
  by (simp_all add: log_agent_thoughts_def)

lemma consume_chunks_trail:
  "trail (snd (consume_chunks p chunks ls w)) = trail w @ thought_logs p chunks
   \<and> fs (snd (consume_chunks p chunks ls w)) = fs w"
proof (induction chunks arbitrary: ls w)
  case Nil
  show ?case by (simp add: thought_logs_def)
next
  case (Cons chunk chunks)
  show ?case
    using Cons.IH by (cases chunk) (simp_all add: thought_logs_def)
qed

lemma thought_logs_streaming: "list_all (\<lambda>e. phase_of e = STREAMING) (thought_logs p chunks)"
  by (simp add: thought_logs_def list_all_iff)

lemma print_first_ai_streaming: "list_all (\<lambda>e. phase_of e = STREAMING) (print_first_ai ms)"
  by (induction ms rule: print_first_ai.induct) simp_all

lemma generate_structured_output_frame:
  "\<exists>evs. trail (snd (generate_structured_output env oc st w)) = trail w @ evs
         \<and> list_all (\<lambda>e. phase_of e = STREAMING) evs"
  "fs (snd (generate_structured_output env oc st w)) = fs w"
  by (auto simp: generate_structured_output_def split: option.splits sum.splits)

text \<open>The three ways the \<^verbatim>\<open>try\<close> block is left.\<close>

lemma try_block_raises:
  assumes "stream_raises env = Some m"
  shows "\<exists>ls w'. try_block env goal oc w =
           (Raise (StreamingFailure m),
            \<lparr>success = False, last_state = ls, structured_output = None\<rparr>, w')
         \<and> trail w' = trail w @ GraphAstream (graph_input (RECURSION_LIMIT env) goal)
                         # thought_logs (events_output_path env) (stream_chunks env)
         \<and> fs w' = fs w"
proof -
  obtain ls w1 where c: "consume_chunks (events_output_path env) (stream_chunks env) None
      (emit [GraphAstream (graph_input (RECURSION_LIMIT env) goal)] w) = (ls, w1)"
    by (cases "consume_chunks (events_output_path env) (stream_chunks env) None
      (emit [GraphAstream (graph_input (RECURSION_LIMIT env) goal)] w)")
  from consume_chunks_trail[of "events_output_path env" "stream_chunks env" None
      "emit [GraphAstream (graph_input (RECURSION_LIMIT env) goal)] w"] c
  have "trail w1 = trail w @ GraphAstream (graph_input (RECURSION_LIMIT env) goal)
                         # thought_logs (events_output_path env) (stream_chunks env)"
    and "fs w1 = fs w" by simp_all
  then show ?thesis
    using assms c by (simp add: try_block_def)
qed

lemma try_block_no_snapshot:
  assumes "stream_raises env = None" and "snapshots (stream_chunks env) = []"
  shows "\<exists>w'. try_block env goal oc w =
           (ReturnNone, \<lparr>success = False, last_state = None, structured_output = None\<rparr>, w')
         \<and> trail w' = trail w @ [GraphAstream (graph_input (RECURSION_LIMIT env) goal)]
         \<and> fs w' = fs w"
  using assms
  by (simp add: try_block_def consume_chunks_no_snapshot)

lemma try_block_completes:
  assumes "stream_raises env = None" and "snapshots (stream_chunks env) \<noteq> []"
  shows "\<exists>so w' evs. try_block env goal oc w =
           (FallThrough,
            \<lparr>success = True, last_state = Some (last (snapshots (stream_chunks env))),
             structured_output = so\<rparr>, w')
         \<and> so = fst (generate_structured_output env oc (last (snapshots (stream_chunks env))) w)
         \<and> trail w' = trail w @ GraphAstream (graph_input (RECURSION_LIMIT env) goal)
                         # thought_logs (events_output_path env) (stream_chunks env) @ evs
         \<and> list_all (\<lambda>e. phase_of e = STREAMING) evs
         \<and> fs w' = fs w"
proof -
  let ?g = "last (snapshots (stream_chunks env))"
  obtain ls w1 where c: "consume_chunks (events_output_path env) (stream_chunks env) None
      (emit [GraphAstream (graph_input (RECURSION_LIMIT env) goal)] w) = (ls, w1)"
    by (cases "consume_chunks (events_output_path env) (stream_chunks env) None
      (emit [GraphAstream (graph_input (RECURSION_LIMIT env) goal)] w)")
  from consume_chunks_trail[of "events_output_path env" "stream_chunks env" None
      "emit [GraphAstream (graph_input (RECURSION_LIMIT env) goal)] w"] c
  have t1: "trail w1 = trail w @ GraphAstream (graph_input (RECURSION_LIMIT env) goal)
                         # thought_logs (events_output_path env) (stream_chunks env)"
    and f1: "fs w1 = fs w" by simp_all
  from consume_chunks_last_state[of "events_output_path env" "stream_chunks env" None
      "emit [GraphAstream (graph_input (RECURSION_LIMIT env) goal)] w"] c assms(2)
  have ls: "ls = Some ?g" by simp
  let ?w2 = "emit (print_ai_response_to_stderr ?g) w1"
  obtain so w3 where g: "generate_structured_output env oc ?g ?w2 = (so, w3)"
    by (cases "generate_structured_output env oc ?g ?w2")
  from generate_structured_output_frame[of env oc ?g ?w2] g
  obtain evs where t3: "trail w3 = trail ?w2 @ evs"
    and p3: "list_all (\<lambda>e. phase_of e = STREAMING) evs" and f3: "fs w3 = fs ?w2"
    by auto
  have so: "so = fst (generate_structured_output env oc ?g w)"
    using g by (auto simp: generate_structured_output_def split: option.splits sum.splits if_splits)
  have tb: "try_block env goal oc w =
      (FallThrough, \<lparr>success = True, last_state = Some ?g, structured_output = so\<rparr>, w3)"
    using assms(1) c ls g by (simp add: try_block_def)
  have "trail w3 = trail w @ GraphAstream (graph_input (RECURSION_LIMIT env) goal)
      # thought_logs (events_output_path env) (stream_chunks env)
      @ (print_ai_response_to_stderr ?g @ evs)"
    using t3 t1 by simp
  moreover have "list_all (\<lambda>e. phase_of e = STREAMING) (print_ai_response_to_stderr ?g @ evs)"
    using p3 by (simp add: print_ai_response_to_stderr_def print_first_ai_streaming)
  moreover have "fs w3 = fs w" using f3 f1 by simp
  ultimately show ?thesis using tb so by blast
qed

text \<open>The \<^verbatim>\<open>finally\<close> block.\<close>

lemma trace_step_cases:
  "trace_step ev fault w = (r, w') \<Longrightarrow>
     w' = emit [ev] w \<and> (r = None) = (fault = None)"
  by (auto simp: trace_step_def split: option.splits)

lemma finally_block_skipped:
  "finally_block env tn None outp locals w = (None, emit [AsyncSleep 1] w)"
  "finally_block env tn tmp None locals w = (None, emit [AsyncSleep 1] w)"
  "start_time env = 0 \<Longrightarrow> finally_block env tn tmp outp locals w = (None, emit [AsyncSleep 1] w)"
  by (simp_all add: finally_block_def split: option.splits)

lemma compile_and_move_completes:
  assumes "no_finalization_fault env" and "tmp \<in> fs w"
  shows "\<exists>w'. compile_and_move env tn tmp outp ok w = (None, w')
         \<and> trail w' = trail w @ [CreateGif tmp, CreateStepsJson tmp, RemoveImages tmp,
              RemoveStepsJson tmp, Rename tmp (path_join outp (new_name env tn ok))]
         \<and> fs w' = insert (path_join outp (new_name env tn ok)) (fs w - {tmp})"
  using assms
  by (simp add: compile_and_move_def no_finalization_fault_def trace_step_def and_then_def
      rename_dir_def)

lemma compile_and_move_None:
  assumes "compile_and_move env tn tmp outp ok w = (None, w')"
  shows "trail w' = trail w @ [CreateGif tmp, CreateStepsJson tmp, RemoveImages tmp,
              RemoveStepsJson tmp, Rename tmp (path_join outp (new_name env tn ok))]
         \<and> fs w' = insert (path_join outp (new_name env tn ok)) (fs w - {tmp})
         \<and> tmp \<in> fs w"
  using assms
  by (auto simp: compile_and_move_def trace_step_def and_then_def rename_dir_def
      split: option.splits if_splits)

lemma compile_and_move_Some:
  assumes "compile_and_move env tn tmp outp ok w = (Some e, w')"
  shows "fs w' = fs w \<and> (\<exists>m. e = TraceFinalizationFailure m)
         \<and> (\<exists>evs. trail w' = trail w @ evs \<and> list_all (\<lambda>e. phase_of e = FINALIZING_TRACE) evs)"
  using assms
  by (auto simp: compile_and_move_def trace_step_def and_then_def rename_dir_def
      split: option.splits if_splits)

lemma finally_block_completes:
  assumes "no_finalization_fault env" and "tmp \<in> fs w" and "start_time env \<noteq> 0"
  shows "\<exists>w'. finally_block env tn (Some tmp) (Some outp) locals w = (None, w')
         \<and> trail w' = trail w @ [CreateGif tmp, CreateStepsJson tmp, RemoveImages tmp,
              RemoveStepsJson tmp, Rename tmp (path_join outp (new_name env tn (success locals))),
              AsyncSleep 1]
         \<and> fs w' = insert (path_join outp (new_name env tn (success locals))) (fs w - {tmp})"
proof -
  from compile_and_move_completes[OF assms(1,2), of tn outp "success locals"]
  obtain w1 where "compile_and_move env tn tmp outp (success locals) w = (None, w1)"
    and "trail w1 = trail w @ [CreateGif tmp, CreateStepsJson tmp, RemoveImages tmp,
              RemoveStepsJson tmp, Rename tmp (path_join outp (new_name env tn (success locals)))]"
    and "fs w1 = insert (path_join outp (new_name env tn (success locals))) (fs w - {tmp})"
    by blast
  then show ?thesis
    using assms(3) by (simp add: finally_block_def and_then_def)
qed

lemma finally_block_None:
  assumes "finally_block env tn (Some tmp) (Some outp) locals w = (None, w')"
    and "start_time env \<noteq> 0"
  shows "trail w' = trail w @ [CreateGif tmp, CreateStepsJson tmp, RemoveImages tmp,
              RemoveStepsJson tmp, Rename tmp (path_join outp (new_name env tn (success locals))),
              AsyncSleep 1]
         \<and> fs w' = insert (path_join outp (new_name env tn (success locals))) (fs w - {tmp})
         \<and> tmp \<in> fs w"
proof -
  obtain r w1 where c: "compile_and_move env tn tmp outp (success locals) w = (r, w1)"
    by (cases "compile_and_move env tn tmp outp (success locals) w")
  with assms have "r = None" and "w' = emit [AsyncSleep 1] w1"
    by (auto simp: finally_block_def and_then_def split: option.splits)
  with compile_and_move_None[of env tn tmp outp "success locals" w w1] c
  show ?thesis by simp
qed

lemma finally_block_Some:
  assumes "finally_block env tn tmp outp locals w = (Some e, w')"
  shows "fs w' = fs w \<and> (\<exists>m. e = TraceFinalizationFailure m)
         \<and> (\<exists>evs. trail w' = trail w @ evs \<and> list_all (\<lambda>e. phase_of e = FINALIZING_TRACE) evs)
         \<and> tmp \<noteq> None \<and> outp \<noteq> None"
proof -
  from assms obtain t outd where tmp: "tmp = Some t" and outp: "outp = Some outd"
    by (cases tmp; cases outp) (auto simp: finally_block_def)
  obtain r w1 where c: "compile_and_move env tn t outd (success locals) w = (r, w1)"
    by (cases "compile_and_move env tn t outd (success locals) w")
  with assms tmp outp have "r = Some e" and "w' = w1"
    by (auto simp: finally_block_def and_then_def split: option.splits if_splits)
  with c have "compile_and_move env tn t outd (success locals) w = (Some e, w')" by simp
  from compile_and_move_Some[OF this] tmp outp
  show ?thesis by simp
qed

lemma finally_block_frame:
  "\<exists>evs. trail (snd (finally_block env tn tmp outp locals w)) = trail w @ evs
         \<and> list_all (\<lambda>e. phase_of e = FINALIZING_TRACE) evs
         \<and> (tmp = None \<longrightarrow> evs = [AsyncSleep 1] \<and>
              fs (snd (finally_block env tn tmp outp locals w)) = fs w)"
proof (cases "fst (finally_block env tn tmp outp locals w)")
  case (Some e)
  then have "finally_block env tn tmp outp locals w =
      (Some e, snd (finally_block env tn tmp outp locals w))"
    by (metis prod.collapse)
  from finally_block_Some[OF this] show ?thesis by auto
next
  case None
  then have fb: "finally_block env tn tmp outp locals w =
      (None, snd (finally_block env tn tmp outp locals w))"
    by (metis prod.collapse)
  show ?thesis
  proof (cases "tmp \<noteq> None \<and> outp \<noteq> None \<and> start_time env \<noteq> 0")
    case True
    then obtain t outd where "tmp = Some t" and "outp = Some outd" by auto
    with finally_block_None[of env tn t outd locals w] fb True
    show ?thesis by simp
  next
    case False
    then have "finally_block env tn tmp outp locals w = (None, emit [AsyncSleep 1] w)"
      by (auto simp: finally_block_def split: option.splits)
    then show ?thesis by auto
  qed
qed

text \<open>The statements after the \<^verbatim>\<open>try\<close> statement.\<close>

lemma resolve_output_cases:
  "resolve_output env locals w = (out, w') \<Longrightarrow>
     fs w' = fs w \<and>
     (\<exists>r. out = Returned r \<and>
          (r = NoResult \<longrightarrow> w' = w) \<and>
          (r \<noteq> NoResult \<longrightarrow> trail w' = trail w @ [RecordEvents (results_output_path env) r]))"
  by (auto simp: resolve_output_def split: option.splits list.splits if_splits)

subsection \<open>The \<^verbatim>\<open>try\<close> statement as a whole\<close>

lemma post_bootstrap_event_phase:
  "phase_of e = STREAMING \<Longrightarrow> post_bootstrap_event traced raised e"
  "phase_of e = FINALIZING_TRACE \<Longrightarrow> traced \<or> \<not> is_trace_event e \<Longrightarrow>
     post_bootstrap_event traced raised e"
  "phase_of e = RESOLVING_OUTPUT \<Longrightarrow> \<not> raised \<Longrightarrow> post_bootstrap_event traced raised e"
  by (cases e; auto simp: post_bootstrap_event_def)+

lemma list_all_streaming_post:
  "list_all (\<lambda>e. phase_of e = STREAMING) evs \<Longrightarrow> list_all (post_bootstrap_event t r) evs"
  by (simp add: list_all_iff post_bootstrap_event_phase(1))

lemma finally_block_post:
  assumes fb: "finally_block env tn tmp outp locals w = (fin, w2)"
  shows "\<exists>evs. trail w2 = trail w @ evs \<and> list_all (post_bootstrap_event (tmp \<noteq> None) r) evs"
    and "tmp = None \<Longrightarrow> fs w2 = fs w"
proof -
  have s: "snd (finally_block env tn tmp outp locals w) = w2" using fb by simp
  from finally_block_frame[of env tn tmp outp locals w]
  obtain evs where t: "trail w2 = trail w @ evs"
    and p: "list_all (\<lambda>e. phase_of e = FINALIZING_TRACE) evs"
    and n: "tmp = None \<longrightarrow> evs = [AsyncSleep 1] \<and> fs w2 = fs w"
    unfolding s by blast
  have "list_all (post_bootstrap_event (tmp \<noteq> None) r) evs"
  proof (cases "tmp = None")
    case True
    with n have "evs = [AsyncSleep 1]" by simp
    then show ?thesis by (simp add: post_bootstrap_event_def)
  next
    case False
    with p show ?thesis
      by (auto simp: list_all_iff intro: post_bootstrap_event_phase(2))
  qed
  with t show "\<exists>evs. trail w2 = trail w @ evs \<and> list_all (post_bootstrap_event (tmp \<noteq> None) r) evs"
    by blast
  show "fs w2 = fs w" if "tmp = None" using n that by simp
qed

lemma try_finally_raises:
  assumes "stream_raises env = Some m"
    and "try_finally env goal tn oc tmp outp w = (out, w')"
  shows "(\<exists>e. out = Raised e)
         \<and> (\<exists>evs. trail w' = trail w @ evs \<and> list_all (post_bootstrap_event (tmp \<noteq> None) True) evs)
         \<and> (tmp = None \<longrightarrow> fs w' = fs w)"
proof -
  from try_block_raises[OF assms(1), of goal oc w]
  obtain ls w1 where tb: "try_block env goal oc w =
      (Raise (StreamingFailure m),
       \<lparr>success = False, last_state = ls, structured_output = None\<rparr>, w1)"
    and t1: "trail w1 = trail w @ GraphAstream (graph_input (RECURSION_LIMIT env) goal)
                         # thought_logs (events_output_path env) (stream_chunks env)"
    and f1: "fs w1 = fs w" by blast
  let ?loc = "\<lparr>success = False, last_state = ls, structured_output = None\<rparr>"
  obtain fin w2 where fb: "finally_block env tn tmp outp ?loc w1 = (fin, w2)"
    by (cases "finally_block env tn tmp outp ?loc w1")
  from finally_block_post(1)[OF fb, of True]
  obtain evs where t2: "trail w2 = trail w1 @ evs"
    and p2: "list_all (post_bootstrap_event (tmp \<noteq> None) True) evs" by blast
  have f2: "tmp = None \<longrightarrow> fs w2 = fs w1" using finally_block_post(2)[OF fb] by simp
  from assms(2) tb fb have out: "(\<exists>e. out = Raised e)" and w': "w' = w2"
    by (auto simp: try_finally_def split: option.splits)
  have "list_all (post_bootstrap_event (tmp \<noteq> None) True)
      (GraphAstream (graph_input (RECURSION_LIMIT env) goal)
        # thought_logs (events_output_path env) (stream_chunks env))"
    using list_all_streaming_post[OF thought_logs_streaming]
    by (simp add: post_bootstrap_event_def)
  with p2 have "list_all (post_bootstrap_event (tmp \<noteq> None) True)
      ((GraphAstream (graph_input (RECURSION_LIMIT env) goal)
        # thought_logs (events_output_path env) (stream_chunks env)) @ evs)"
    by simp
  moreover have "trail w' = trail w @
      ((GraphAstream (graph_input (RECURSION_LIMIT env) goal)
        # thought_logs (events_output_path env) (stream_chunks env)) @ evs)"
    using t1 t2 w' by simp
  ultimately show ?thesis using out f1 f2 w' by auto
qed

lemma try_finally_frame:
  assumes "try_finally env goal tn oc tmp outp w = (out, w')"
  shows "(\<exists>evs. trail w' = trail w @ evs
           \<and> list_all (post_bootstrap_event (tmp \<noteq> None) (stream_raises env \<noteq> None)) evs)
         \<and> (tmp = None \<longrightarrow> fs w' = fs w)"
proof (cases "stream_raises env")
  case (Some m)
  from try_finally_raises[OF Some assms] Some show ?thesis by auto
next
  case None
  obtain ctl loc w1 where tb: "try_block env goal oc w = (ctl, loc, w1)"
    by (cases "try_block env goal oc w") auto
  have "\<exists>evs1. trail w1 = trail w @ evs1 \<and> list_all (\<lambda>e. phase_of e = STREAMING) evs1
      \<and> fs w1 = fs w \<and> ctl \<noteq> Raise (StreamingFailure [])
      \<and> (\<forall>e. ctl \<noteq> Raise e)"
  proof (cases "snapshots (stream_chunks env) = []")
    case True
    from try_block_no_snapshot[OF None True, of goal oc w] tb
    show ?thesis by auto
  next
    case False
    from try_block_completes[OF None False, of goal oc w] tb
    obtain evs where "trail w1 = trail w @ GraphAstream (graph_input (RECURSION_LIMIT env) goal)
                         # thought_logs (events_output_path env) (stream_chunks env) @ evs"
      and "list_all (\<lambda>e. phase_of e = STREAMING) evs" and "fs w1 = fs w"
      and "ctl = FallThrough" by auto
    then show ?thesis
      using thought_logs_streaming[of "events_output_path env" "stream_chunks env"]
      by auto
  qed
  then obtain evs1 where t1: "trail w1 = trail w @ evs1"
    and p1: "list_all (\<lambda>e. phase_of e = STREAMING) evs1"
    and f1: "fs w1 = fs w" and nr: "\<forall>e. ctl \<noteq> Raise e" by blast
  obtain fin w2 where fb: "finally_block env tn tmp outp loc w1 = (fin, w2)"
    by (cases "finally_block env tn tmp outp loc w1")
  from finally_block_post(1)[OF fb, of False]
  obtain evs2 where t2: "trail w2 = trail w1 @ evs2"
    and p2: "list_all (post_bootstrap_event (tmp \<noteq> None) False) evs2" by blast
  have f2: "tmp = None \<longrightarrow> fs w2 = fs w1" using finally_block_post(2)[OF fb] by simp
  have "\<exists>evs3. trail w' = trail w2 @ evs3
      \<and> list_all (post_bootstrap_event (tmp \<noteq> None) False) evs3 \<and> fs w' = fs w2"
  proof (cases fin)
    case (Some e)
    with assms tb fb have "w' = w2" by (simp add: try_finally_def)
    then show ?thesis by simp
  next
    case fin_None: None
    show ?thesis
    proof (cases ctl)
      case FallThrough
      with assms tb fb fin_None have ro: "resolve_output env loc w2 = (out, w')"
        by (simp add: try_finally_def)
      from resolve_output_cases[OF ro]
      obtain r where "fs w' = fs w2" and "r = NoResult \<longrightarrow> w' = w2"
        and "r \<noteq> NoResult \<longrightarrow> trail w' = trail w2 @ [RecordEvents (results_output_path env) r]"
        by blast
      then show ?thesis
        by (cases "r = NoResult") (auto simp: post_bootstrap_event_def)
    next
      case ReturnNone
      with assms tb fb fin_None have "w' = w2" by (simp add: try_finally_def)
      then show ?thesis by simp
    next
      case (Raise e)
      with nr show ?thesis by simp
    qed
  qed
  then obtain evs3 where t3: "trail w' = trail w2 @ evs3"
    and p3: "list_all (post_bootstrap_event (tmp \<noteq> None) False) evs3"
    and f3: "fs w' = fs w2" by blast
  have "trail w' = trail w @ (evs1 @ evs2 @ evs3)" using t1 t2 t3 by simp
  moreover have "list_all (post_bootstrap_event (tmp \<noteq> None) False) (evs1 @ evs2 @ evs3)"
    using list_all_streaming_post[OF p1] p2 p3 by simp
  ultimately show ?thesis using None f1 f2 f3 by auto
qed

subsection \<open>The bootstrap\<close>

lemma poll_bridge_status_events:
  assumes "poll_bridge_status gs k acc = Some (b, evs)"
  shows "\<exists>ps. evs = acc @ ps \<and> list_all server_event ps"
proof -
  from poll_returns_terminal[OF assms] obtain j where "k \<le> j" and "status (gs j) \<noteq> STARTING"
    by blast
  then have ex: "\<exists>j. k \<le> j \<and> status (gs j) \<noteq> STARTING" by blast
  define n where "n = (LEAST j. k \<le> j \<and> status (gs j) \<noteq> STARTING)"
  from LeastI_ex[OF ex] have n: "k \<le> n" "status (gs n) \<noteq> STARTING"
    unfolding n_def by simp_all
  have before: "\<forall>j. k \<le> j \<and> j < n \<longrightarrow> status (gs j) = STARTING"
    using not_less_Least[of _ "\<lambda>j. k \<le> j \<and> status (gs j) \<noteq> STARTING"]
    unfolding n_def by blast
  from poll_terminal[OF before n(2) n(1), of acc] assms
  have "evs = acc @ concat (replicate (n - k) [BridgeGetStatus, Sleep 1]) @
                 BridgeGetStatus #
                 (if status (gs n) = RUNNING then []
                  else [BridgeFailedLog (status (gs n)) (output_text (gs n))])"
    by simp
  moreover have "list_all server_event (concat (replicate (n - k) [BridgeGetStatus, Sleep 1]) @
                 BridgeGetStatus #
                 (if status (gs n) = RUNNING then []
                  else [BridgeFailedLog (status (gs n)) (output_text (gs n))]))"
    by (auto simp: list_all_iff)
  ultimately show ?thesis by blast
qed

lemma start_screen_api_and_check_events:
  "list_all server_event acc \<Longrightarrow> list_all server_event (snd (start_screen_api_and_check st senv acc))"
  by (auto simp: start_screen_api_and_check_def check_device_screen_api_health_with_retry_logic_def
      Let_def split: if_splits)

lemma run_servers_events:
  assumes "run_servers st senv dev = Some (b, evs)"
  shows "list_all server_event evs"
proof (cases "truthy (DEVICE_HARDWARE_BRIDGE_BASE_URL st)")
  case True
  with assms have "evs = snd (start_screen_api_and_check st senv [])"
    by (auto simp: run_servers_def)
  then show ?thesis using start_screen_api_and_check_events[of "[]" st senv] by simp
next
  case False
  show ?thesis
  proof (cases "bridge_instance senv")
    case False
    with \<open>\<not> truthy (DEVICE_HARDWARE_BRIDGE_BASE_URL st)\<close> assms show ?thesis
      by (auto simp: run_servers_def)
  next
    case True
    with \<open>\<not> truthy (DEVICE_HARDWARE_BRIDGE_BASE_URL st)\<close> assms
    obtain running acc where p: "poll_bridge_status (get_status senv) 0
        [StartDeviceHardwareBridge dev] = Some (running, acc)"
      and r: "(b, evs) = (if running then start_screen_api_and_check st senv acc else (False, acc))"
      by (auto simp: run_servers_def split: option.splits if_splits)
    from poll_bridge_status_events[OF p] have "list_all server_event acc" by auto
    with r start_screen_api_and_check_events[of acc st senv] show ?thesis
      by (cases running) (auto simp: snd_def split: prod.splits)
  qed
qed

lemma server_event_bootstrapping:
  "server_event e \<Longrightarrow> phase_of e = BOOTSTRAPPING \<and> \<not> is_attempt e \<and> e \<noteq> Sleep 3"
  by (cases e) auto

lemma server_events_count:
  assumes "list_all server_event evs"
  shows "list_all (\<lambda>e. phase_of e = BOOTSTRAPPING) evs"
    and "filter is_attempt evs = []"
    and "count_list evs (Sleep 3) = 0"
  using assms server_event_bootstrapping
  by (auto simp: list_all_iff filter_empty_conv count_list_0_iff)

lemma bootstrap_loop_fail:
  assumes "run_servers st (atts r) dev = Some (False, evs)"
    and "Suc r < max_restart_attempts"
  shows "bootstrap_loop st atts dev r acc =
           bootstrap_loop st atts dev (Suc r) (acc @ RunServers dev # evs @ [Sleep 3])"
  using assms by (subst bootstrap_loop.simps) simp

lemma bootstrap_loop_exhausted:
  assumes "run_servers st (atts r) dev = Some (False, evs)"
    and "Suc r = max_restart_attempts"
  shows "bootstrap_loop st atts dev r acc = Some (False, acc @ RunServers dev # evs)"
  using assms by (subst bootstrap_loop.simps) auto

lemma bootstrap_loop_success:
  assumes "run_servers st (atts r) dev = Some (True, evs)"
    and "r < max_restart_attempts"
  shows "bootstrap_loop st atts dev r acc = Some (True, acc @ RunServers dev # evs)"
  using assms by (subst bootstrap_loop.simps) simp

lemma bootstrap_loop_failures:
  assumes "\<forall>k<n. run_servers st (atts k) dev = Some (False, evs k)"
    and "n < max_restart_attempts"
  shows "bootstrap_loop st atts dev 0 acc =
           bootstrap_loop st atts dev n (acc @ failed_attempts dev evs n)"
  using assms
proof (induction n)
  case 0
  show ?case by simp
next
  case (Suc n)
  then have "bootstrap_loop st atts dev 0 acc =
      bootstrap_loop st atts dev n (acc @ failed_attempts dev evs n)" by simp
  also have "\<dots> = bootstrap_loop st atts dev (Suc n)
      ((acc @ failed_attempts dev evs n) @ RunServers dev # evs n @ [Sleep 3])"
    using Suc.prems by (intro bootstrap_loop_fail) simp_all
  finally show ?case by simp
qed

lemma failed_attempts_count:
  assumes "\<forall>k<n. list_all server_event (evs k)"
  shows "count_list (failed_attempts dev evs n) (Sleep 3) = n
         \<and> attempts_made (failed_attempts dev evs n) = n
         \<and> count_list (failed_attempts dev evs n) (RunServers dev) = n
         \<and> list_all (\<lambda>e. phase_of e = BOOTSTRAPPING) (failed_attempts dev evs n)"
  using assms
proof (induction n)
  case 0
  show ?case by (simp add: attempts_made_def)
next
  case (Suc n)
  then have ev: "list_all server_event (evs n)" by simp
  have "RunServers dev \<notin> set (evs n)"
    using ev server_event_bootstrapping by (fastforce simp: list_all_iff)
  then have "count_list (evs n) (RunServers dev) = 0" by (simp add: count_list_0_iff)
  with Suc server_events_count[OF ev] show ?case
    by (simp add: attempts_made_def)
qed

lemma bootstrap_loop_frame:
  "bootstrap_loop st atts dev r acc = Some (b, evs) \<Longrightarrow>
     \<exists>new. evs = acc @ new \<and> list_all (\<lambda>e. phase_of e = BOOTSTRAPPING) new
           \<and> attempts_made new \<le> max_restart_attempts - r"
proof (induction st atts dev r acc rule: bootstrap_loop.induct)
  case (1 st atts dev r acc)
  show ?case
  proof (cases "r < max_restart_attempts")
    case False
    with "1.prems" have "evs = acc" by (subst (asm) bootstrap_loop.simps) simp
    then show ?thesis by (simp add: attempts_made_def)
  next
    case True
    with "1.prems" obtain ok sv where rs: "run_servers st (atts r) dev = Some (ok, sv)"
      by (subst (asm) bootstrap_loop.simps) (auto split: option.splits)
    from run_servers_events[OF rs] have sv: "list_all server_event sv" .
    note c = server_events_count[OF sv]
    show ?thesis
    proof (cases ok)
      case True
      with rs \<open>r < max_restart_attempts\<close> "1.prems"
      have "evs = acc @ RunServers dev # sv"
        by (simp add: bootstrap_loop_success)
      with c \<open>r < max_restart_attempts\<close> show ?thesis
        by (auto simp: attempts_made_def)
    next
      case False
      show ?thesis
      proof (cases "Suc r < max_restart_attempts")
        case False
        with \<open>r < max_restart_attempts\<close> have "Suc r = max_restart_attempts" by simp
        with rs \<open>\<not> ok\<close> "1.prems" have "evs = acc @ RunServers dev # sv"
          by (simp add: bootstrap_loop_exhausted)
        with c \<open>r < max_restart_attempts\<close> show ?thesis
          by (auto simp: attempts_made_def)
      next
        case True
        with rs \<open>\<not> ok\<close> "1.prems"
        have "bootstrap_loop st atts dev (Suc r) (acc @ RunServers dev # sv @ [Sleep 3]) =
            Some (b, evs)"
          by (simp add: bootstrap_loop_fail)
        from "1.IH"[OF \<open>r < max_restart_attempts\<close> rs refl \<open>\<not> ok\<close> True this]
        obtain new where "evs = (acc @ RunServers dev # sv @ [Sleep 3]) @ new"
          and "list_all (\<lambda>e. phase_of e = BOOTSTRAPPING) new"
          and "attempts_made new \<le> max_restart_attempts - Suc r" by blast
        with c True have "evs = acc @ (RunServers dev # sv @ [Sleep 3] @ new)"
          and "list_all (\<lambda>e. phase_of e = BOOTSTRAPPING) (RunServers dev # sv @ [Sleep 3] @ new)"
          and "attempts_made (RunServers dev # sv @ [Sleep 3] @ new) \<le> max_restart_attempts - r"
          by (auto simp: attempts_made_def)
        then show ?thesis by blast
      qed
    qed
  qed
qed

subsection \<open>\<^verbatim>\<open>run_automation\<close>, path by path\<close>

lemma run_automation_no_device:
  "\<not> truthy (first_device_id env) \<Longrightarrow>
     run_automation env goal tn tops oc w =
       Some (Returned NoResult, emit [PrepareOutputFiles, GetFirstDeviceId] w)"
  by (simp add: run_automation_def)

lemma run_automation_exhausted:
  assumes "truthy (first_device_id env)"
    and "bootstrap_loop (settings env) (attempts env) (fstr (first_device_id env)) 0 [] =
           Some (False, boot)"
  shows "run_automation env goal tn tops oc w =
           Some (Returned NoResult, emit (PrepareOutputFiles # GetFirstDeviceId # boot) w)"
  using assms by (simp add: run_automation_def emit_def)

lemma run_automation_proceeds:
  assumes "truthy (first_device_id env)"
    and "bootstrap_loop (settings env) (attempts env) (fstr (first_device_id env)) 0 [] =
           Some (True, boot)"
  shows "run_automation env goal tn tops oc w =
           Some (run_after_bootstrap env goal tn tops oc (fstr (first_device_id env))
                   (emit (PrepareOutputFiles # GetFirstDeviceId # boot) w))"
  using assms by (simp add: run_automation_def emit_def)

lemma run_after_bootstrap_query_fails:
  "screen_data env = Inl m \<Longrightarrow>
     run_after_bootstrap env goal tn tops oc dev w =
       (Raised (ScreenQueryFailure m), emit [InitializeLlmConfig, GetScreenData] w)"
  by (simp add: run_after_bootstrap_def get_mobile_use_context_def)

lemma run_after_bootstrap_traced:
  assumes "screen_data env = Inr sd" and "truthy tn"
  shows "\<exists>w1. run_after_bootstrap env goal tn tops oc dev w =
           try_finally env goal tn oc (Some (temp_dir env tn)) (Some (resolve env tops)) w1
         \<and> trail w1 = trail w @ context_events env tn tops
         \<and> fs w1 = insert (temp_dir env tn) (insert (resolve env tops) (fs w))"
  using assms
  apply (simp add: run_after_bootstrap_def get_mobile_use_context_def setup_traces_def
      context_events_def temp_dir_def Let_def)
  apply (rule exI, rule conjI, rule refl)
  apply simp
  done

lemma run_after_bootstrap_untraced:
  assumes "screen_data env = Inr sd" and "\<not> truthy tn"
  shows "\<exists>w1. run_after_bootstrap env goal tn tops oc dev w =
           try_finally env goal tn oc None None w1
         \<and> trail w1 = trail w @ context_events env tn tops
         \<and> fs w1 = fs w"
  using assms
  apply (simp add: run_after_bootstrap_def get_mobile_use_context_def setup_traces_def
      context_events_def Let_def)
  apply (rule exI, rule conjI, rule refl)
  apply simp
  done

lemma context_events_post:
  "list_all (post_bootstrap_event (truthy tn) r) (context_events env tn tops)"
  by (simp add: context_events_def post_bootstrap_event_def)

lemma run_after_bootstrap_frame:
  assumes "run_after_bootstrap env goal tn tops oc dev w = (out, w')"
  shows "(\<exists>evs. trail w' = trail w @ evs
           \<and> list_all (post_bootstrap_event (truthy tn) (stream_raises env \<noteq> None)) evs)
         \<and> (\<not> truthy tn \<longrightarrow> fs w' = fs w)
         \<and> (stream_raises env \<noteq> None \<longrightarrow> (\<exists>e. out = Raised e))"
proof (cases "screen_data env")
  case (Inl m)
  from run_after_bootstrap_query_fails[OF Inl, of goal tn tops oc dev w] assms
  have o: "out = Raised (ScreenQueryFailure m)"
    and w': "w' = emit [InitializeLlmConfig, GetScreenData] w" by simp_all
  have "list_all (post_bootstrap_event (truthy tn) (stream_raises env \<noteq> None))
      [InitializeLlmConfig, GetScreenData]"
    by (simp add: post_bootstrap_event_def)
  moreover have "trail w' = trail w @ [InitializeLlmConfig, GetScreenData]"
    using w' by simp
  moreover have "fs w' = fs w" using w' by simp
  ultimately show ?thesis using o by blast
next
  case (Inr sd)
  have "\<exists>tmp outp w1. try_finally env goal tn oc tmp outp w1 = (out, w')
         \<and> trail w1 = trail w @ context_events env tn tops
         \<and> (tmp \<noteq> None) = truthy tn
         \<and> (\<not> truthy tn \<longrightarrow> fs w1 = fs w)"
  proof (cases "truthy tn")
    case True
    from run_after_bootstrap_traced[OF Inr True, of goal tops oc dev w]
    obtain w1 where "run_after_bootstrap env goal tn tops oc dev w =
           try_finally env goal tn oc (Some (temp_dir env tn)) (Some (resolve env tops)) w1"
      and "trail w1 = trail w @ context_events env tn tops" by blast
    with assms True show ?thesis
      by (intro exI[of _ "Some (temp_dir env tn)"] exI[of _ "Some (resolve env tops)"]
          exI[of _ w1]) simp
  next
    case False
    from run_after_bootstrap_untraced[OF Inr False, of goal tops oc dev w]
    obtain w1 where "run_after_bootstrap env goal tn tops oc dev w =
           try_finally env goal tn oc None None w1"
      and "trail w1 = trail w @ context_events env tn tops" and "fs w1 = fs w" by blast
    with assms False show ?thesis
      by (intro exI[of _ "None"] exI[of _ w1]) simp
  qed
  then obtain tmp outp w1 where tf: "try_finally env goal tn oc tmp outp w1 = (out, w')"
    and t1: "trail w1 = trail w @ context_events env tn tops"
    and tt: "(tmp \<noteq> None) = truthy tn"
    and f1: "\<not> truthy tn \<longrightarrow> fs w1 = fs w"
    by blast
  from try_finally_frame[OF tf]
  obtain evs where t2: "trail w' = trail w1 @ evs"
    and p2: "list_all (post_bootstrap_event (tmp \<noteq> None) (stream_raises env \<noteq> None)) evs"
    and f2: "tmp = None \<longrightarrow> fs w' = fs w1" by blast
  have a: "trail w' = trail w @ (context_events env tn tops @ evs)" using t1 t2 by simp
  have b: "list_all (post_bootstrap_event (truthy tn) (stream_raises env \<noteq> None))
      (context_events env tn tops @ evs)"
    using p2 context_events_post[of tn "stream_raises env \<noteq> None" env tops]
    unfolding tt by simp
  have c: "\<not> truthy tn \<longrightarrow> fs w' = fs w" using f1 f2 tt by auto
  have d: "stream_raises env \<noteq> None \<longrightarrow> (\<exists>e. out = Raised e)"
  proof
    assume "stream_raises env \<noteq> None"
    then obtain m where "stream_raises env = Some m" by auto
    from try_finally_raises[OF this tf] show "\<exists>e. out = Raised e" by blast
  qed
  from a b c d show ?thesis by blast
qed

lemma run_automation_frame:
  assumes "run_automation env goal tn tops oc w = Some (out, w')"
  shows "\<exists>boot post. trail w' = trail w @ PrepareOutputFiles # GetFirstDeviceId # boot @ post
           \<and> list_all (\<lambda>e. phase_of e = BOOTSTRAPPING) boot
           \<and> attempts_made boot \<le> max_restart_attempts
           \<and> list_all (post_bootstrap_event (truthy tn) (stream_raises env \<noteq> None)) post
           \<and> (\<not> truthy tn \<longrightarrow> fs w' = fs w)
           \<and> (stream_raises env \<noteq> None \<longrightarrow> out = Returned NoResult \<or> (\<exists>e. out = Raised e))"
proof (cases "truthy (first_device_id env)")
  case False
  from run_automation_no_device[OF False, of goal tn tops oc w] assms
  have "out = Returned NoResult" and "w' = emit [PrepareOutputFiles, GetFirstDeviceId] w"
    by simp_all
  then have "trail w' = trail w @ PrepareOutputFiles # GetFirstDeviceId # [] @ []"
    and "fs w' = fs w" by simp_all
  with \<open>out = Returned NoResult\<close> show ?thesis
    apply (rule_tac x = "[]" in exI)
    apply (rule_tac x = "[]" in exI)
    apply (simp add: attempts_made_def)
    done
next
  case True
  let ?dev = "fstr (first_device_id env)"
  from assms True obtain b boot where
    bl: "bootstrap_loop (settings env) (attempts env) ?dev 0 [] = Some (b, boot)"
    by (auto simp: run_automation_def Let_def split: option.splits)
  from bootstrap_loop_frame[OF bl]
  have pb: "list_all (\<lambda>e. phase_of e = BOOTSTRAPPING) boot"
    and ab: "attempts_made boot \<le> max_restart_attempts" by auto
  let ?w0 = "emit (PrepareOutputFiles # GetFirstDeviceId # boot) w"
  show ?thesis
  proof (cases b)
    case False
    with bl run_automation_exhausted[OF True, of boot goal tn tops oc w] assms
    have "out = Returned NoResult" and "w' = ?w0" by simp_all
    then have "trail w' = trail w @ PrepareOutputFiles # GetFirstDeviceId # boot @ []"
      and "fs w' = fs w" by simp_all
    with \<open>out = Returned NoResult\<close> pb ab show ?thesis
      apply (rule_tac x = boot in exI)
      apply (rule_tac x = "[]" in exI)
      apply simp
      done
  next
    case b_True: True
    with bl run_automation_proceeds[OF True, of boot goal tn tops oc w] assms
    have rab: "run_after_bootstrap env goal tn tops oc ?dev ?w0 = (out, w')" by simp
    from run_after_bootstrap_frame[OF rab]
    obtain post where "trail w' = trail ?w0 @ post"
      and "list_all (post_bootstrap_event (truthy tn) (stream_raises env \<noteq> None)) post"
      and "\<not> truthy tn \<longrightarrow> fs w' = fs ?w0"
      and "stream_raises env \<noteq> None \<longrightarrow> (\<exists>e. out = Raised e)" by blast
    with pb ab show ?thesis
      apply (rule_tac x = boot in exI)
      apply (rule_tac x = post in exI)
      apply simp
      done
  qed
qed

lemma try_finally_invokes_graph:
  assumes "try_finally env goal tn oc tmp outp w = (out, w')"
  shows "\<exists>evs. trail w' = trail w @ GraphAstream (graph_input (RECURSION_LIMIT env) goal) # evs"
proof -
  obtain ctl loc w1 where tb: "try_block env goal oc w = (ctl, loc, w1)"
    by (cases "try_block env goal oc w") auto
  have "\<exists>evs1. trail w1 = trail w @ GraphAstream (graph_input (RECURSION_LIMIT env) goal) # evs1"
  proof (cases "stream_raises env")
    case (Some m)
    from try_block_raises[OF Some, of goal oc w] tb show ?thesis by auto
  next
    case None
    show ?thesis
    proof (cases "snapshots (stream_chunks env) = []")
      case True
      from try_block_no_snapshot[OF None True, of goal oc w] tb show ?thesis by auto
    next
      case False
      from try_block_completes[OF None False, of goal oc w] tb show ?thesis by auto
    qed
  qed
  then obtain evs1 where t1: "trail w1 =
      trail w @ GraphAstream (graph_input (RECURSION_LIMIT env) goal) # evs1" by blast
  obtain fin w2 where fb: "finally_block env tn tmp outp loc w1 = (fin, w2)"
    by (cases "finally_block env tn tmp outp loc w1")
  from finally_block_post(1)[OF fb, of False]
  obtain evs2 where t2: "trail w2 = trail w1 @ evs2" by blast
  have "\<exists>evs3. trail w' = trail w2 @ evs3"
  proof (cases "fin = None \<and> ctl = FallThrough")
    case True
    with assms tb fb have ro: "resolve_output env loc w2 = (out, w')"
      by (simp add: try_finally_def)
    from resolve_output_cases[OF ro]
    obtain r where "r = NoResult \<longrightarrow> w' = w2"
      and "r \<noteq> NoResult \<longrightarrow> trail w' = trail w2 @ [RecordEvents (results_output_path env) r]"
      by blast
    then show ?thesis by (cases "r = NoResult") auto
  next
    case False
    with assms tb fb have "w' = w2"
      by (auto simp: try_finally_def split: option.splits control.splits)
    then show ?thesis by simp
  qed
  then obtain evs3 where "trail w' = trail w2 @ evs3" by blast
  with t1 t2 have "trail w' =
      trail w @ GraphAstream (graph_input (RECURSION_LIMIT env) goal) # (evs1 @ evs2 @ evs3)"
    by simp
  then show ?thesis by blast
qed

lemma post_bootstrap_event_not_boot:
  "post_bootstrap_event t r e \<Longrightarrow> \<not> is_attempt e \<and> e \<noteq> Sleep 3"
  by (cases e) (auto simp: post_bootstrap_event_def)

lemma post_bootstrap_events_count:
  assumes "list_all (post_bootstrap_event t r) evs"
  shows "filter is_attempt evs = []" and "count_list evs (Sleep 3) = 0"
    and "list_all (\<lambda>e. phase_of e \<noteq> RESOLVING_DEVICE \<and> phase_of e \<noteq> BOOTSTRAPPING) evs"
  using assms post_bootstrap_event_not_boot
  by (auto simp: list_all_iff filter_empty_conv count_list_0_iff post_bootstrap_event_def)

lemma bootstrapping_not_streaming:
  "list_all (\<lambda>e. phase_of e = BOOTSTRAPPING) evs \<Longrightarrow> list_all (\<lambda>e. phase_of e \<noteq> STREAMING) evs"
  by (simp add: list_all_iff)

text \<open>Three failed attempts in a row end the run.\<close>

lemma run_automation_three_failures:
  assumes dev: "truthy (first_device_id env)"
    and fails: "\<forall>k<3. run_servers (settings env) (attempts env k) (fstr (first_device_id env)) =
                  Some (False, evs k)"
  shows "run_automation env goal tn tops oc w =
           Some (Returned NoResult,
                 emit (PrepareOutputFiles # GetFirstDeviceId #
                       failed_attempts (fstr (first_device_id env)) evs 2 @
                       RunServers (fstr (first_device_id env)) # evs 2) w)"
proof -
  let ?dev = "fstr (first_device_id env)"
  have "bootstrap_loop (settings env) (attempts env) ?dev 0 [] =
      bootstrap_loop (settings env) (attempts env) ?dev 2 ([] @ failed_attempts ?dev evs 2)"
    using fails by (intro bootstrap_loop_failures) (simp_all add: max_restart_attempts_def)
  also have "\<dots> = Some (False, ([] @ failed_attempts ?dev evs 2) @ RunServers ?dev # evs 2)"
    using fails by (intro bootstrap_loop_exhausted) (simp_all add: max_restart_attempts_def)
  finally have "bootstrap_loop (settings env) (attempts env) ?dev 0 [] =
      Some (False, failed_attempts ?dev evs 2 @ RunServers ?dev # evs 2)" by simp
  from run_automation_exhausted[OF dev this] show ?thesis by simp
qed

text \<open>Fewer than three failed attempts, then a successful one: the run goes on.\<close>

lemma run_automation_failures_then_success:
  assumes dev: "truthy (first_device_id env)"
    and n: "n < max_restart_attempts"
    and fails: "\<forall>k<n. run_servers (settings env) (attempts env k) (fstr (first_device_id env)) =
                  Some (False, evs k)"
    and ok: "run_servers (settings env) (attempts env n) (fstr (first_device_id env)) =
               Some (True, evs n)"
  shows "bootstrap_loop (settings env) (attempts env) (fstr (first_device_id env)) 0 [] =
           Some (True, failed_attempts (fstr (first_device_id env)) evs n @
                       RunServers (fstr (first_device_id env)) # evs n)"
    and "run_automation env goal tn tops oc w =
           Some (run_after_bootstrap env goal tn tops oc (fstr (first_device_id env))
                   (emit (PrepareOutputFiles # GetFirstDeviceId #
                          failed_attempts (fstr (first_device_id env)) evs n @
                          RunServers (fstr (first_device_id env)) # evs n) w))"
proof -
  let ?dev = "fstr (first_device_id env)"
  have "bootstrap_loop (settings env) (attempts env) ?dev 0 [] =
      bootstrap_loop (settings env) (attempts env) ?dev n ([] @ failed_attempts ?dev evs n)"
    using fails n by (intro bootstrap_loop_failures) simp_all
  also have "\<dots> = Some (True, ([] @ failed_attempts ?dev evs n) @ RunServers ?dev # evs n)"
    using ok n by (intro bootstrap_loop_success) simp_all
  finally show bl: "bootstrap_loop (settings env) (attempts env) ?dev 0 [] =
      Some (True, failed_attempts ?dev evs n @ RunServers ?dev # evs n)" by simp
  from run_automation_proceeds[OF dev bl]
  show "run_automation env goal tn tops oc w =
           Some (run_after_bootstrap env goal tn tops oc ?dev
                   (emit (PrepareOutputFiles # GetFirstDeviceId #
                          failed_attempts ?dev evs n @ RunServers ?dev # evs n) w))" by simp
qed

subsection \<open>Bounded bootstrap\<close>

text \<open>
  Claim C2. A run that returns has called \<^verbatim>\<open>run_servers\<close> at most three times. When a
  device is found and the first three calls fail, the run returns no result after
  exactly those three calls, with a pause after the first and the second only; nothing
  but device resolution and bootstrap has happened, so the planning engine was never
  started.
\<close>

theorem at_most_three_bootstrap_attempts:
  "(run_automation env goal tn tops oc w = Some (out, w') \<longrightarrow>
      attempts_made (new_events w w') \<le> 3)
   \<and> (truthy (first_device_id env) \<and>
       (\<forall>k<3. run_servers (settings env) (attempts env k) (fstr (first_device_id env)) =
                 Some (False, evs k)) \<longrightarrow>
       (\<exists>w''. run_automation env goal tn tops oc w = Some (Returned NoResult, w'')
          \<and> new_events w w'' =
              PrepareOutputFiles # GetFirstDeviceId #
              failed_attempts (fstr (first_device_id env)) evs 2 @
              RunServers (fstr (first_device_id env)) # evs 2
          \<and> attempts_made (new_events w w'') = 3
          \<and> count_list (new_events w w'') (Sleep 3) = 2
          \<and> list_all (\<lambda>e. phase_of e = RESOLVING_DEVICE \<or> phase_of e = BOOTSTRAPPING)
               (new_events w w'')
          \<and> (\<forall>s. GraphAstream s \<notin> set (new_events w w''))))"
proof (intro conjI impI)
  assume run: "run_automation env goal tn tops oc w = Some (out, w')"
  from run_automation_frame[OF run]
  obtain boot post where t: "trail w' = trail w @ PrepareOutputFiles # GetFirstDeviceId # boot @ post"
    and ab: "attempts_made boot \<le> max_restart_attempts"
    and pp: "list_all (post_bootstrap_event (truthy tn) (stream_raises env \<noteq> None)) post"
    by blast
  from t have "new_events w w' = PrepareOutputFiles # GetFirstDeviceId # boot @ post" by simp
  with ab post_bootstrap_events_count(1)[OF pp]
  show "attempts_made (new_events w w') \<le> 3"
    by (simp add: attempts_made_def max_restart_attempts_def)
next
  let ?dev = "fstr (first_device_id env)"
  let ?new = "PrepareOutputFiles # GetFirstDeviceId # failed_attempts ?dev evs 2 @
              RunServers ?dev # evs 2"
  assume h: "truthy (first_device_id env) \<and>
       (\<forall>k<3. run_servers (settings env) (attempts env k) ?dev = Some (False, evs k))"
  then have dev: "truthy (first_device_id env)"
    and fails: "\<forall>k<3. run_servers (settings env) (attempts env k) ?dev = Some (False, evs k)"
    by simp_all
  have sv: "\<forall>k<3. list_all server_event (evs k)"
    using fails run_servers_events by blast
  then have sv2: "\<forall>k<2. list_all server_event (evs k)" and e2: "list_all server_event (evs 2)"
    by simp_all
  note fa = failed_attempts_count[OF sv2, of ?dev]
  note c2 = server_events_count[OF e2]
  have run: "run_automation env goal tn tops oc w = Some (Returned NoResult, emit ?new w)"
    using run_automation_three_failures[OF dev fails] by simp
  have ne: "new_events w (emit ?new w) = ?new" by simp
  have am: "attempts_made ?new = 3"
    using fa c2 by (simp add: attempts_made_def)
  have cs: "count_list ?new (Sleep 3) = 2"
    using fa c2 by simp
  have ph: "list_all (\<lambda>e. phase_of e = RESOLVING_DEVICE \<or> phase_of e = BOOTSTRAPPING) ?new"
    using fa c2 by (auto simp: list_all_iff)
  have ng: "\<forall>s. GraphAstream s \<notin> set ?new"
  proof (intro allI notI)
    fix s
    assume "GraphAstream s \<in> set ?new"
    with ph have "phase_of (GraphAstream s) = RESOLVING_DEVICE \<or>
        phase_of (GraphAstream s) = BOOTSTRAPPING"
      unfolding list_all_iff by blast
    then show False by simp
  qed
  show "\<exists>w''. run_automation env goal tn tops oc w = Some (Returned NoResult, w'')
          \<and> new_events w w'' = ?new
          \<and> attempts_made (new_events w w'') = 3
          \<and> count_list (new_events w w'') (Sleep 3) = 2
          \<and> list_all (\<lambda>e. phase_of e = RESOLVING_DEVICE \<or> phase_of e = BOOTSTRAPPING)
               (new_events w w'')
          \<and> (\<forall>s. GraphAstream s \<notin> set (new_events w w''))"
    using run ne am cs ph ng by (intro exI[of _ "emit ?new w"]) simp
qed

lemma run_servers_bridge_fails_until:
  "run_servers (settings (bridge_fails_until n)) (attempts (bridge_fails_until n) k) dev =
     (if n \<le> k
      then Some (True, [StartDeviceHardwareBridge dev, BridgeGetStatus, StartDeviceScreenApi,
                        HealthCheck])
      else Some (False, [StartDeviceHardwareBridge dev]))"
  by (simp add: bridge_fails_until_def reference_env_def run_servers_def
      poll_bridge_status.simps[of _ 0] start_screen_api_and_check_def
      check_device_screen_api_health_with_retry_logic_def)

lemma bridge_fails_until_fields [simp]:
  "first_device_id (bridge_fails_until n) = Some ''emulator-5554''"
  "stream_raises (bridge_fails_until n) = None"
  "screen_data (bridge_fails_until n) = Inr \<lparr>platform = ''ANDROID'', width = 1080, height = 2400\<rparr>"
  "RECURSION_LIMIT (bridge_fails_until n) = 400"
  by (simp_all add: bridge_fails_until_def reference_env_def)

theorem at_most_three_bootstrap_attempts_witness:
  "\<exists>w'. run_automation (bridge_fails_until 3) ''open settings'' None ''traces'' None fresh_world =
          Some (Returned NoResult, w')
        \<and> new_events fresh_world w' =
            [PrepareOutputFiles, GetFirstDeviceId,
             RunServers ''emulator-5554'', StartDeviceHardwareBridge ''emulator-5554'', Sleep 3,
             RunServers ''emulator-5554'', StartDeviceHardwareBridge ''emulator-5554'', Sleep 3,
             RunServers ''emulator-5554'', StartDeviceHardwareBridge ''emulator-5554'']
        \<and> attempts_made (new_events fresh_world w') \<le> 3"
proof -
  from at_most_three_bootstrap_attempts[of "bridge_fails_until 3" "''open settings''" None
      "''traces''" None fresh_world "Returned NoResult" fresh_world
      "\<lambda>k. [StartDeviceHardwareBridge ''emulator-5554'']", THEN conjunct2]
  obtain w' where run: "run_automation (bridge_fails_until 3) ''open settings'' None ''traces''
        None fresh_world = Some (Returned NoResult, w')"
    and ne: "new_events fresh_world w' =
      PrepareOutputFiles # GetFirstDeviceId #
      failed_attempts ''emulator-5554'' (\<lambda>k. [StartDeviceHardwareBridge ''emulator-5554'']) 2 @
      [RunServers ''emulator-5554'', StartDeviceHardwareBridge ''emulator-5554'']"
    by (auto simp: run_servers_bridge_fails_until)
  from at_most_three_bootstrap_attempts[of "bridge_fails_until 3" "''open settings''" None
      "''traces''" None fresh_world "Returned NoResult" w'] run
  have "attempts_made (new_events fresh_world w') \<le> 3" by simp
  with run ne show ?thesis
    by (intro exI[of _ w']) (simp add: numeral_2_eq_2)
qed

subsection \<open>Backoff pauses\<close>

text \<open>
  Claim C3, as stated, at \<open>N = 3\<close>: the first three attempts fail and a fourth one
  would succeed. The run makes two pauses, not three, never calls \<^verbatim>\<open>run_servers\<close> a
  fourth time, and returns no result without starting the planning engine.
\<close>

theorem three_failures_then_success_counterexample:
  "run_servers (settings (bridge_fails_until 3)) (attempts (bridge_fails_until 3) 0)
     ''emulator-5554'' = Some (False, [StartDeviceHardwareBridge ''emulator-5554''])
   \<and> run_servers (settings (bridge_fails_until 3)) (attempts (bridge_fails_until 3) 1)
     ''emulator-5554'' = Some (False, [StartDeviceHardwareBridge ''emulator-5554''])
   \<and> run_servers (settings (bridge_fails_until 3)) (attempts (bridge_fails_until 3) 2)
     ''emulator-5554'' = Some (False, [StartDeviceHardwareBridge ''emulator-5554''])
   \<and> run_servers (settings (bridge_fails_until 3)) (attempts (bridge_fails_until 3) 3)
     ''emulator-5554'' =
       Some (True, [StartDeviceHardwareBridge ''emulator-5554'', BridgeGetStatus,
                    StartDeviceScreenApi, HealthCheck])
   \<and> run_automation (bridge_fails_until 3) ''open settings'' None ''traces'' None fresh_world =
       Some (Returned NoResult,
             emit [PrepareOutputFiles, GetFirstDeviceId,
                   RunServers ''emulator-5554'', StartDeviceHardwareBridge ''emulator-5554'',
                   Sleep 3,
                   RunServers ''emulator-5554'', StartDeviceHardwareBridge ''emulator-5554'',
                   Sleep 3,
                   RunServers ''emulator-5554'', StartDeviceHardwareBridge ''emulator-5554'']
               fresh_world)
   \<and> count_list [PrepareOutputFiles, GetFirstDeviceId,
                   RunServers ''emulator-5554'', StartDeviceHardwareBridge ''emulator-5554'',
                   Sleep 3,
                   RunServers ''emulator-5554'', StartDeviceHardwareBridge ''emulator-5554'',
                   Sleep 3,
                   RunServers ''emulator-5554'', StartDeviceHardwareBridge ''emulator-5554'']
        (Sleep 3) \<noteq> 3"
proof -
  have "run_automation (bridge_fails_until 3) ''open settings'' None ''traces'' None fresh_world =
      Some (Returned NoResult,
            emit (PrepareOutputFiles # GetFirstDeviceId #
                  failed_attempts ''emulator-5554''
                    (\<lambda>k. [StartDeviceHardwareBridge ''emulator-5554'']) 2 @
                  RunServers ''emulator-5554'' # [StartDeviceHardwareBridge ''emulator-5554''])
              fresh_world)"
    using run_automation_three_failures[of "bridge_fails_until 3"
        "\<lambda>k. [StartDeviceHardwareBridge ''emulator-5554'']" "''open settings''" None "''traces''"
        None fresh_world]
    by (simp add: run_servers_bridge_fails_until)
  then show ?thesis
    by (simp add: run_servers_bridge_fails_until numeral_2_eq_2)
qed

text \<open>
  Claim C3, amended. For \<open>N\<close> in \<open>{1, 2}\<close>: when a device is found, the first \<open>N\<close>
  calls of \<^verbatim>\<open>run_servers\<close> fail and the next one succeeds, the run makes exactly \<open>N\<close>
  pauses of three time units and \<open>N + 1\<close> calls; everything it does afterwards comes
  after the successful call and belongs to neither device resolution nor bootstrap, and
  nothing before belongs to streaming. When the screen query answers, the planning
  engine is started there.
\<close>

theorem pauses_before_streaming:
  assumes "N \<in> {1, 2}"
    and "truthy (first_device_id env)"
    and "\<forall>k<N. run_servers (settings env) (attempts env k) (fstr (first_device_id env)) =
                 Some (False, evs k)"
    and "run_servers (settings env) (attempts env N) (fstr (first_device_id env)) =
           Some (True, evs N)"
  shows "\<exists>out w' post.
           run_automation env goal tn tops oc w = Some (out, w')
         \<and> new_events w w' =
             PrepareOutputFiles # GetFirstDeviceId #
             failed_attempts (fstr (first_device_id env)) evs N @
             RunServers (fstr (first_device_id env)) # evs N @ post
         \<and> count_list (new_events w w') (Sleep 3) = N
         \<and> attempts_made (new_events w w') = N + 1
         \<and> list_all (\<lambda>e. phase_of e \<noteq> STREAMING)
             (PrepareOutputFiles # GetFirstDeviceId #
              failed_attempts (fstr (first_device_id env)) evs N @
              RunServers (fstr (first_device_id env)) # evs N)
         \<and> list_all (\<lambda>e. phase_of e \<noteq> RESOLVING_DEVICE \<and> phase_of e \<noteq> BOOTSTRAPPING) post
         \<and> (screen_data env \<noteq> Inr sd \<or>
              GraphAstream (graph_input (RECURSION_LIMIT env) goal) \<in> set post)"
proof -
  let ?dev = "fstr (first_device_id env)"
  let ?boot = "failed_attempts ?dev evs N @ RunServers ?dev # evs N"
  let ?w0 = "emit (PrepareOutputFiles # GetFirstDeviceId # ?boot) w"
  from assms(1) have n: "N < max_restart_attempts" by (auto simp: max_restart_attempts_def)
  from run_automation_failures_then_success(2)[OF assms(2) n assms(3,4), of goal tn tops oc w]
  have run: "run_automation env goal tn tops oc w =
      Some (run_after_bootstrap env goal tn tops oc ?dev ?w0)" .
  obtain out w' where rab: "run_after_bootstrap env goal tn tops oc ?dev ?w0 = (out, w')"
    by (cases "run_after_bootstrap env goal tn tops oc ?dev ?w0")
  from run_after_bootstrap_frame[OF rab]
  obtain post where t: "trail w' = trail ?w0 @ post"
    and pp: "list_all (post_bootstrap_event (truthy tn) (stream_raises env \<noteq> None)) post"
    by blast
  note pc = post_bootstrap_events_count[OF pp]
  have svk: "\<forall>k<N. list_all server_event (evs k)"
    using assms(3) run_servers_events by blast
  have svn: "list_all server_event (evs N)"
    using assms(4) run_servers_events by blast
  note fa = failed_attempts_count[OF svk, of ?dev]
  note cn = server_events_count[OF svn]
  have ne: "new_events w w' = PrepareOutputFiles # GetFirstDeviceId # ?boot @ post"
    using t by simp
  have cs: "count_list (new_events w w') (Sleep 3) = N"
    unfolding ne using fa cn pc by simp
  have am: "attempts_made (new_events w w') = N + 1"
    unfolding ne using fa cn pc by (simp add: attempts_made_def)
  have ns: "list_all (\<lambda>e. phase_of e \<noteq> STREAMING)
      (PrepareOutputFiles # GetFirstDeviceId # ?boot)"
    using fa cn by (auto simp: list_all_iff)
  have gr: "screen_data env \<noteq> Inr sd \<or>
      GraphAstream (graph_input (RECURSION_LIMIT env) goal) \<in> set post"
  proof (cases "screen_data env = Inr sd")
    case False
    then show ?thesis by simp
  next
    case True
    have "\<exists>tmp outp w1 c. try_finally env goal tn oc tmp outp w1 = (out, w')
        \<and> trail w1 = trail ?w0 @ c"
    proof (cases "truthy tn")
      case tr: True
      from run_after_bootstrap_traced[OF True tr, of goal tops oc ?dev ?w0] rab
      show ?thesis by (metis (no_types, lifting))
    next
      case fa: False
      from run_after_bootstrap_untraced[OF True fa, of goal tops oc ?dev ?w0] rab
      show ?thesis by (metis (no_types, lifting))
    qed
    then obtain tmp outp w1 c where tf: "try_finally env goal tn oc tmp outp w1 = (out, w')"
      and t1: "trail w1 = trail ?w0 @ c" by blast
    from try_finally_invokes_graph[OF tf] obtain evs' where
      "trail w' = trail w1 @ GraphAstream (graph_input (RECURSION_LIMIT env) goal) # evs'"
      by blast
    with t1 t have "post = c @ GraphAstream (graph_input (RECURSION_LIMIT env) goal) # evs'"
      by simp
    then show ?thesis by simp
  qed
  from run rab ne cs am ns pc(3) gr show ?thesis
    by (intro exI[of _ out] exI[of _ w'] exI[of _ post]) simp
qed

theorem pauses_before_streaming_witness:
  "\<exists>out w' post.
     run_automation (bridge_fails_until 1) ''open settings'' None ''traces'' None fresh_world =
       Some (out, w')
   \<and> new_events fresh_world w' =
       [PrepareOutputFiles, GetFirstDeviceId,
        RunServers ''emulator-5554'', StartDeviceHardwareBridge ''emulator-5554'', Sleep 3,
        RunServers ''emulator-5554'', StartDeviceHardwareBridge ''emulator-5554'',
        BridgeGetStatus, StartDeviceScreenApi, HealthCheck] @ post
   \<and> count_list (new_events fresh_world w') (Sleep 3) = 1
   \<and> GraphAstream (graph_input 400 ''open settings'') \<in> set post"
proof -
  have one: "(1::nat) \<in> {1, 2}" by simp
  from pauses_before_streaming[OF one, where env = "bridge_fails_until 1"
      and evs = "\<lambda>k. if k < 1 then [StartDeviceHardwareBridge ''emulator-5554'']
           else [StartDeviceHardwareBridge ''emulator-5554'', BridgeGetStatus,
                 StartDeviceScreenApi, HealthCheck]"
      and sd = "\<lparr>platform = ''ANDROID'', width = 1080, height = 2400\<rparr>"
      and goal = "''open settings''" and tn = None and tops = "''traces''" and oc = None
      and w = fresh_world]
  show ?thesis
    by (simp add: run_servers_bridge_fails_until) blast
qed

subsection \<open>Runs that reach the \<^verbatim>\<open>try\<close> statement\<close>

lemma run_automation_reaches_traced:
  assumes "reaches_streaming env boot sd" and "truthy tn"
  shows "\<exists>w1. run_automation env goal tn tops oc w =
           Some (try_finally env goal tn oc (Some (temp_dir env tn)) (Some (resolve env tops)) w1)
         \<and> trail w1 = trail w @ PrepareOutputFiles # GetFirstDeviceId # boot @
                        context_events env tn tops
         \<and> fs w1 = insert (temp_dir env tn) (insert (resolve env tops) (fs w))"
proof -
  let ?dev = "fstr (first_device_id env)"
  let ?w0 = "emit (PrepareOutputFiles # GetFirstDeviceId # boot) w"
  from assms(1) have dev: "truthy (first_device_id env)"
    and bl: "bootstrap_loop (settings env) (attempts env) ?dev 0 [] = Some (True, boot)"
    and sd: "screen_data env = Inr sd"
    by (simp_all add: reaches_streaming_def)
  from run_after_bootstrap_traced[OF sd assms(2), of goal tops oc ?dev ?w0]
  obtain w1 where "run_after_bootstrap env goal tn tops oc ?dev ?w0 =
           try_finally env goal tn oc (Some (temp_dir env tn)) (Some (resolve env tops)) w1"
    and "trail w1 = trail ?w0 @ context_events env tn tops"
    and "fs w1 = insert (temp_dir env tn) (insert (resolve env tops) (fs ?w0))" by blast
  with run_automation_proceeds[OF dev bl, of goal tn tops oc w]
  show ?thesis by (intro exI[of _ w1]) simp
qed

lemma run_automation_reaches_untraced:
  assumes "reaches_streaming env boot sd" and "\<not> truthy tn"
  shows "\<exists>w1. run_automation env goal tn tops oc w =
           Some (try_finally env goal tn oc None None w1)
         \<and> trail w1 = trail w @ PrepareOutputFiles # GetFirstDeviceId # boot @
                        context_events env tn tops
         \<and> fs w1 = fs w"
proof -
  let ?dev = "fstr (first_device_id env)"
  let ?w0 = "emit (PrepareOutputFiles # GetFirstDeviceId # boot) w"
  from assms(1) have dev: "truthy (first_device_id env)"
    and bl: "bootstrap_loop (settings env) (attempts env) ?dev 0 [] = Some (True, boot)"
    and sd: "screen_data env = Inr sd"
    by (simp_all add: reaches_streaming_def)
  from run_after_bootstrap_untraced[OF sd assms(2), of goal tops oc ?dev ?w0]
  obtain w1 where "run_after_bootstrap env goal tn tops oc ?dev ?w0 =
           try_finally env goal tn oc None None w1"
    and "trail w1 = trail ?w0 @ context_events env tn tops"
    and "fs w1 = fs ?w0" by blast
  with run_automation_proceeds[OF dev bl, of goal tn tops oc w]
  show ?thesis by (intro exI[of _ w1]) simp
qed

text \<open>The stream raises in a traced run.\<close>

lemma try_finally_raises_traced:
  assumes raises: "stream_raises env = Some m"
    and clock: "start_time env \<noteq> 0"
    and tmp: "tmp \<in> fs w"
    and tf: "try_finally env goal tn oc (Some tmp) (Some outp) w = (out, w')"
  shows "\<exists>e. out = Raised e"
    and "no_finalization_fault env \<Longrightarrow> out = Raised (StreamingFailure m)"
    and "out = Raised (StreamingFailure m') \<Longrightarrow>
           m' = m
           \<and> trail w' = trail w @ GraphAstream (graph_input (RECURSION_LIMIT env) goal)
                 # thought_logs (events_output_path env) (stream_chunks env)
                 @ [CreateGif tmp, CreateStepsJson tmp, RemoveImages tmp, RemoveStepsJson tmp,
                    Rename tmp (path_join outp (new_name env tn False)), AsyncSleep 1]
           \<and> fs w' = insert (path_join outp (new_name env tn False)) (fs w - {tmp})"
proof -
  from try_block_raises[OF raises, of goal oc w]
  obtain ls w1 where tb: "try_block env goal oc w =
      (Raise (StreamingFailure m),
       \<lparr>success = False, last_state = ls, structured_output = None\<rparr>, w1)"
    and t1: "trail w1 = trail w @ GraphAstream (graph_input (RECURSION_LIMIT env) goal)
                         # thought_logs (events_output_path env) (stream_chunks env)"
    and f1: "fs w1 = fs w" by blast
  let ?loc = "\<lparr>success = False, last_state = ls, structured_output = None\<rparr>"
  obtain fin w2 where fb: "finally_block env tn (Some tmp) (Some outp) ?loc w1 = (fin, w2)"
    by (cases "finally_block env tn (Some tmp) (Some outp) ?loc w1")
  from tf tb fb have out: "out = (case fin of Some e \<Rightarrow> Raised e
      | None \<Rightarrow> Raised (StreamingFailure m))" and w': "w' = w2"
    by (auto simp: try_finally_def split: option.splits)
  from out show "\<exists>e. out = Raised e" by (cases fin) auto
  show "out = Raised (StreamingFailure m)" if "no_finalization_fault env"
  proof -
    from finally_block_completes[OF that _ clock, of tmp w1 tn outp ?loc] tmp f1 fb
    have "fin = None" by auto
    with out show ?thesis by simp
  qed
  show "m' = m
           \<and> trail w' = trail w @ GraphAstream (graph_input (RECURSION_LIMIT env) goal)
                 # thought_logs (events_output_path env) (stream_chunks env)
                 @ [CreateGif tmp, CreateStepsJson tmp, RemoveImages tmp, RemoveStepsJson tmp,
                    Rename tmp (path_join outp (new_name env tn False)), AsyncSleep 1]
           \<and> fs w' = insert (path_join outp (new_name env tn False)) (fs w - {tmp})"
    if o: "out = Raised (StreamingFailure m')"
  proof (cases fin)
    case (Some e)
    from finally_block_Some[OF fb[unfolded Some]] obtain x where "e = TraceFinalizationFailure x"
      by blast
    with out Some o show ?thesis by simp
  next
    case None
    from finally_block_None[OF fb[unfolded None] clock] t1 f1 w' out None o
    show ?thesis by simp
  qed
qed

text \<open>What the \<^verbatim>\<open>try\<close> block leaves in \<^verbatim>\<open>success\<close>.\<close>

lemma try_block_success:
  "try_block env goal oc w = (ctl, loc, w1) \<Longrightarrow>
     success loc = run_succeeds env \<and> fs w1 = fs w \<and> (ctl = FallThrough) = run_succeeds env"
proof -
  assume tb: "try_block env goal oc w = (ctl, loc, w1)"
  show ?thesis
  proof (cases "stream_raises env")
    case (Some m)
    from try_block_raises[OF Some, of goal oc w] tb Some show ?thesis
      by (auto simp: run_succeeds_def)
  next
    case None
    show ?thesis
    proof (cases "snapshots (stream_chunks env) = []")
      case True
      from try_block_no_snapshot[OF None True, of goal oc w] tb True show ?thesis
        by (auto simp: run_succeeds_def)
    next
      case False
      from try_block_completes[OF None False, of goal oc w] tb None False show ?thesis
        by (auto simp: run_succeeds_def)
    qed
  qed
qed

text \<open>The two trace directories after a traced run, whatever its outcome.\<close>

lemma try_finally_traced_fs:
  assumes tf: "try_finally env goal tn oc (Some tmp) (Some outp) w = (out, w')"
    and tmp: "tmp \<in> fs w"
  shows "fs w' = fs w
         \<or> fs w' = insert (path_join outp (new_name env tn (run_succeeds env))) (fs w - {tmp})"
    and "no_finalization_fault env \<Longrightarrow> start_time env \<noteq> 0 \<Longrightarrow>
           fs w' = insert (path_join outp (new_name env tn (run_succeeds env))) (fs w - {tmp})
           \<and> Rename tmp (path_join outp (new_name env tn (run_succeeds env)))
               \<in> set (new_events w w')"
proof -
  let ?dst = "path_join outp (new_name env tn (run_succeeds env))"
  obtain ctl loc w1 where tb: "try_block env goal oc w = (ctl, loc, w1)"
    by (cases "try_block env goal oc w") auto
  from try_block_success[OF tb] have su: "success loc = run_succeeds env"
    and f1: "fs w1 = fs w" by simp_all
  obtain a where t1: "trail w1 = trail w @ a"
  proof -
    show ?thesis
    proof (cases "stream_raises env")
      case (Some m)
      from try_block_raises[OF Some, of goal oc w] tb that show ?thesis by auto
    next
      case None
      show ?thesis
      proof (cases "snapshots (stream_chunks env) = []")
        case True
        from try_block_no_snapshot[OF None True, of goal oc w] tb that show ?thesis by auto
      next
        case False
        from try_block_completes[OF None False, of goal oc w] tb that show ?thesis by auto
      qed
    qed
  qed
  obtain fin w2 where fb: "finally_block env tn (Some tmp) (Some outp) loc w1 = (fin, w2)"
    by (cases "finally_block env tn (Some tmp) (Some outp) loc w1")
  have rest: "fs w' = fs w2 \<and> (\<exists>c. trail w' = trail w2 @ c)"
  proof (cases "fin = None \<and> ctl = FallThrough")
    case True
    with tf tb fb have ro: "resolve_output env loc w2 = (out, w')"
      by (simp add: try_finally_def)
    from resolve_output_cases[OF ro]
    obtain r where "fs w' = fs w2" and "r = NoResult \<longrightarrow> w' = w2"
      and "r \<noteq> NoResult \<longrightarrow> trail w' = trail w2 @ [RecordEvents (results_output_path env) r]"
      by blast
    then show ?thesis by (cases "r = NoResult") auto
  next
    case False
    with tf tb fb have "w' = w2"
      by (auto simp: try_finally_def split: option.splits control.splits)
    then show ?thesis by simp
  qed
  have fin_fs: "fs w2 = fs w1 \<or> fs w2 = insert ?dst (fs w1 - {tmp})"
  proof (cases fin)
    case (Some e)
    from finally_block_Some[OF fb[unfolded Some]] show ?thesis by simp
  next
    case None
    show ?thesis
    proof (cases "start_time env = 0")
      case True
      from finally_block_skipped(3)[OF True, of tn "Some tmp" "Some outp" loc w1] fb
      show ?thesis by simp
    next
      case False
      from finally_block_None[OF fb[unfolded None] False] su show ?thesis by simp
    qed
  qed
  with rest f1 show "fs w' = fs w \<or> fs w' = insert ?dst (fs w - {tmp})" by auto
  show "fs w' = insert ?dst (fs w - {tmp}) \<and> Rename tmp ?dst \<in> set (new_events w w')"
    if nf: "no_finalization_fault env" and clock: "start_time env \<noteq> 0"
  proof -
    from finally_block_completes[OF nf _ clock, of tmp w1 tn outp loc] tmp f1 fb su
    have "fs w2 = insert ?dst (fs w1 - {tmp})"
      and t2: "trail w2 = trail w1 @ [CreateGif tmp, CreateStepsJson tmp, RemoveImages tmp,
              RemoveStepsJson tmp, Rename tmp ?dst, AsyncSleep 1]"
      by auto
    moreover from rest obtain c where "trail w' = trail w2 @ c" by blast
    ultimately show ?thesis using rest f1 t1 by simp
  qed
qed

lemma reference_run_servers:
  assumes "settings env = settings reference_env" and "attempts env = attempts reference_env"
  shows "run_servers (settings env) (attempts env k) dev =
           Some (True, [StartDeviceHardwareBridge dev, BridgeGetStatus, StartDeviceScreenApi,
                        HealthCheck])"
  unfolding assms
  by (simp add: reference_env_def run_servers_def
      poll_bridge_status.simps[of _ 0] start_screen_api_and_check_def
      check_device_screen_api_health_with_retry_logic_def)

lemma reference_reaches_streaming:
  assumes "settings env = settings reference_env" and "attempts env = attempts reference_env"
    and "first_device_id env = Some ''emulator-5554''"
    and "screen_data env = Inr sd"
  shows "reaches_streaming env
           [RunServers ''emulator-5554'', StartDeviceHardwareBridge ''emulator-5554'',
            BridgeGetStatus, StartDeviceScreenApi, HealthCheck] sd"
proof -
  have "bootstrap_loop (settings env) (attempts env) ''emulator-5554'' 0 [] =
      Some (True, [] @ RunServers ''emulator-5554'' #
        [StartDeviceHardwareBridge ''emulator-5554'', BridgeGetStatus, StartDeviceScreenApi,
         HealthCheck])"
    using reference_run_servers[OF assms(1,2), of 0 "''emulator-5554''"]
    by (intro bootstrap_loop_success) (simp_all add: max_restart_attempts_def)
  with assms(3,4) show ?thesis by (simp add: reaches_streaming_def)
qed

subsection \<open>A stream that raises\<close>

text \<open>
  Claim C1. Take a run that gets as far as the \<^verbatim>\<open>try\<close> statement with a test name
  and a clock that does not read zero, and whose stream raises. The run raises; it
  raises the exception of the stream whenever no step of the finalization raises
  itself. Whenever the exception of the stream is what reaches the caller, the whole
  finalization lies before it in the trail, after the call of the graph and the logging
  of the thoughts: the four compiler steps on the temp directory, its rename to
  \<open>{test_name}_FAIL_{timestamp}\<close> under the output root, and the closing sleep; the temp
  directory is gone and the renamed one exists.
\<close>

theorem streaming_failure_after_finalization:
  assumes "reaches_streaming env boot sd"
    and "stream_raises env = Some m"
    and "truthy tn"
    and "start_time env \<noteq> 0"
  shows "\<exists>out w'.
           run_automation env goal tn tops oc w = Some (out, w')
         \<and> (\<exists>e. out = Raised e)
         \<and> (\<not> no_finalization_fault env \<or> out = Raised (StreamingFailure m))
         \<and> (out \<noteq> Raised (StreamingFailure m) \<or>
              new_events w w' =
                PrepareOutputFiles # GetFirstDeviceId # boot @ context_events env tn tops @
                GraphAstream (graph_input (RECURSION_LIMIT env) goal) #
                thought_logs (events_output_path env) (stream_chunks env) @
                finalization_events env tops tn False @ [AsyncSleep 1]
              \<and> fs w' = insert (final_dir env tops tn False)
                          (insert (resolve env tops) (fs w) - {temp_dir env tn}))
         \<and> final_dir env tops tn False =
             path_join (resolve env tops)
               (fstr tn @ ''_FAIL_'' @ convert_timestamp_to_str env (start_time env))"
proof -
  let ?tmp = "temp_dir env tn"
  let ?outp = "resolve env tops"
  from run_automation_reaches_traced[OF assms(1,3), of goal tops oc w]
  obtain w1 where run: "run_automation env goal tn tops oc w =
      Some (try_finally env goal tn oc (Some ?tmp) (Some ?outp) w1)"
    and t1: "trail w1 = trail w @ PrepareOutputFiles # GetFirstDeviceId # boot @
                        context_events env tn tops"
    and f1: "fs w1 = insert ?tmp (insert ?outp (fs w))" by blast
  obtain out w' where tf: "try_finally env goal tn oc (Some ?tmp) (Some ?outp) w1 = (out, w')"
    by (cases "try_finally env goal tn oc (Some ?tmp) (Some ?outp) w1")
  have tmp: "?tmp \<in> fs w1" using f1 by simp
  note r = try_finally_raises_traced[OF assms(2,4) tmp tf]
  have a: "\<exists>e. out = Raised e" by (rule r(1))
  have b: "\<not> no_finalization_fault env \<or> out = Raised (StreamingFailure m)"
    using r(2) by blast
  have c: "out \<noteq> Raised (StreamingFailure m) \<or>
              new_events w w' =
                PrepareOutputFiles # GetFirstDeviceId # boot @ context_events env tn tops @
                GraphAstream (graph_input (RECURSION_LIMIT env) goal) #
                thought_logs (events_output_path env) (stream_chunks env) @
                finalization_events env tops tn False @ [AsyncSleep 1]
              \<and> fs w' = insert (final_dir env tops tn False)
                          (insert (resolve env tops) (fs w) - {temp_dir env tn})"
  proof (cases "out = Raised (StreamingFailure m)")
    case False
    then show ?thesis by simp
  next
    case True
    from r(3)[OF True] t1 f1 show ?thesis
      by (auto simp: finalization_events_def final_dir_def)
  qed
  have d: "final_dir env tops tn False =
      path_join (resolve env tops)
        (fstr tn @ ''_FAIL_'' @ convert_timestamp_to_str env (start_time env))"
    by (simp add: final_dir_def new_name_def trace_status_def)
  from run tf a b c d show ?thesis
    by (intro exI[of _ out] exI[of _ w']) simp
qed

theorem streaming_failure_after_finalization_witness:
  "\<exists>w'. run_automation crashing_env ''open settings'' (Some ''login'') ''traces'' None
           fresh_world = Some (Raised (StreamingFailure ''planner crashed''), w')
        \<and> new_events fresh_world w' =
            [PrepareOutputFiles, GetFirstDeviceId,
             RunServers ''emulator-5554'', StartDeviceHardwareBridge ''emulator-5554'',
             BridgeGetStatus, StartDeviceScreenApi, HealthCheck,
             InitializeLlmConfig, GetScreenData,
             Mkdir ''traces'', Mkdir ''/app/mobile_use/../traces/login'',
             GraphAstream (graph_input 400 ''open settings''),
             LogAgentThoughts [''tap the icon''] ''events.json'',
             LogAgentThoughts [''tap the icon'', ''settings is open''] ''events.json'',
             CreateGif ''/app/mobile_use/../traces/login'',
             CreateStepsJson ''/app/mobile_use/../traces/login'',
             RemoveImages ''/app/mobile_use/../traces/login'',
             RemoveStepsJson ''/app/mobile_use/../traces/login'',
             Rename ''/app/mobile_use/../traces/login''
               ''traces/login_FAIL_2024-10-27_03-33-20'',
             AsyncSleep 1]
        \<and> fs w' = {''traces'', ''traces/login_FAIL_2024-10-27_03-33-20''}"
proof -
  have reach: "reaches_streaming crashing_env
      [RunServers ''emulator-5554'', StartDeviceHardwareBridge ''emulator-5554'',
       BridgeGetStatus, StartDeviceScreenApi, HealthCheck]
      \<lparr>platform = ''ANDROID'', width = 1080, height = 2400\<rparr>"
    by (rule reference_reaches_streaming) (simp_all add: crashing_env_def reference_env_def)
  have raises: "stream_raises crashing_env = Some ''planner crashed''"
    by (simp add: crashing_env_def)
  have tn: "truthy (Some ''login'')" by simp
  have clock: "start_time crashing_env \<noteq> 0"
    by (simp add: crashing_env_def reference_env_def)
  have nf: "no_finalization_fault crashing_env"
    by (simp add: no_finalization_fault_def crashing_env_def reference_env_def)
  from streaming_failure_after_finalization[OF reach raises tn clock,
      of "''open settings''" "''traces''" None fresh_world]
  obtain out w' where run: "run_automation crashing_env ''open settings'' (Some ''login'')
        ''traces'' None fresh_world = Some (out, w')"
    and o: "out = Raised (StreamingFailure ''planner crashed'')"
    and rest: "out \<noteq> Raised (StreamingFailure ''planner crashed'') \<or>
      new_events fresh_world w' =
        PrepareOutputFiles # GetFirstDeviceId #
        [RunServers ''emulator-5554'', StartDeviceHardwareBridge ''emulator-5554'',
         BridgeGetStatus, StartDeviceScreenApi, HealthCheck] @
        context_events crashing_env (Some ''login'') ''traces'' @
        GraphAstream (graph_input (RECURSION_LIMIT crashing_env) ''open settings'') #
        thought_logs (events_output_path crashing_env) (stream_chunks crashing_env) @
        finalization_events crashing_env ''traces'' (Some ''login'') False @ [AsyncSleep 1]
      \<and> fs w' = insert (final_dir crashing_env ''traces'' (Some ''login'') False)
                  (insert (resolve crashing_env ''traces'') (fs fresh_world)
                   - {temp_dir crashing_env (Some ''login'')})"
    using nf by blast
  from o rest have ne: "new_events fresh_world w' =
        PrepareOutputFiles # GetFirstDeviceId #
        [RunServers ''emulator-5554'', StartDeviceHardwareBridge ''emulator-5554'',
         BridgeGetStatus, StartDeviceScreenApi, HealthCheck] @
        context_events crashing_env (Some ''login'') ''traces'' @
        GraphAstream (graph_input (RECURSION_LIMIT crashing_env) ''open settings'') #
        thought_logs (events_output_path crashing_env) (stream_chunks crashing_env) @
        finalization_events crashing_env ''traces'' (Some ''login'') False @ [AsyncSleep 1]"
    and fs': "fs w' = insert (final_dir crashing_env ''traces'' (Some ''login'') False)
                  (insert (resolve crashing_env ''traces'') (fs fresh_world)
                   - {temp_dir crashing_env (Some ''login'')})"
    by simp_all
  have td: "temp_dir crashing_env (Some ''login'') = ''/app/mobile_use/../traces/login''"
    by (simp add: temp_dir_def crashing_env_def reference_env_def path_join_def)
  have fd: "final_dir crashing_env ''traces'' (Some ''login'') False =
      ''traces/login_FAIL_2024-10-27_03-33-20''"
    by (simp add: final_dir_def new_name_def trace_status_def crashing_env_def
        reference_env_def path_join_def)
  have ce: "context_events crashing_env (Some ''login'') ''traces'' =
      [InitializeLlmConfig, GetScreenData, Mkdir ''traces'',
       Mkdir ''/app/mobile_use/../traces/login'']"
    using td by (simp add: context_events_def crashing_env_def reference_env_def)
  have tl: "thought_logs (events_output_path crashing_env) (stream_chunks crashing_env) =
      [LogAgentThoughts [''tap the icon''] ''events.json'',
       LogAgentThoughts [''tap the icon'', ''settings is open''] ''events.json'']"
    by (simp add: thought_logs_def crashing_env_def reference_env_def)
  have fe: "finalization_events crashing_env ''traces'' (Some ''login'') False =
      [CreateGif ''/app/mobile_use/../traces/login'',
       CreateStepsJson ''/app/mobile_use/../traces/login'',
       RemoveImages ''/app/mobile_use/../traces/login'',
       RemoveStepsJson ''/app/mobile_use/../traces/login'',
       Rename ''/app/mobile_use/../traces/login'' ''traces/login_FAIL_2024-10-27_03-33-20'']"
    using td fd by (simp add: finalization_events_def)
  have rl: "RECURSION_LIMIT crashing_env = 400" "resolve crashing_env ''traces'' = ''traces''"
    by (simp_all add: crashing_env_def reference_env_def)
  have "fs w' = {''traces'', ''traces/login_FAIL_2024-10-27_03-33-20''}"
    unfolding fs' td fd rl by (auto simp: fresh_world_def)
  moreover have "new_events fresh_world w' =
            [PrepareOutputFiles, GetFirstDeviceId,
             RunServers ''emulator-5554'', StartDeviceHardwareBridge ''emulator-5554'',
             BridgeGetStatus, StartDeviceScreenApi, HealthCheck,
             InitializeLlmConfig, GetScreenData,
             Mkdir ''traces'', Mkdir ''/app/mobile_use/../traces/login'',
             GraphAstream (graph_input 400 ''open settings''),
             LogAgentThoughts [''tap the icon''] ''events.json'',
             LogAgentThoughts [''tap the icon'', ''settings is open''] ''events.json'',
             CreateGif ''/app/mobile_use/../traces/login'',
             CreateStepsJson ''/app/mobile_use/../traces/login'',
             RemoveImages ''/app/mobile_use/../traces/login'',
             RemoveStepsJson ''/app/mobile_use/../traces/login'',
             Rename ''/app/mobile_use/../traces/login''
               ''traces/login_FAIL_2024-10-27_03-33-20'',
             AsyncSleep 1]"
    unfolding ne ce tl fe rl by simp
  ultimately show ?thesis using run o by (intro exI[of _ w']) simp
qed

subsection \<open>The trace directories\<close>

text \<open>
  Claim C6. Take a run with a test name that gets as far as the \<^verbatim>\<open>try\<close> statement,
  the final directory \<open>{test_name}_{PASS|FAIL}_{timestamp}\<close> under the output root being
  a new name (it does not exist before the run and is neither the temp directory nor the
  output root). Whether the run returns a result, returns none or raises, exactly one of
  the temp directory and the final directory exists afterwards; when the finalization
  runs and none of its steps raises, it is the final one, the temp directory having been
  renamed to it. A run without a test name leaves the directories as they were and makes
  no call on a trace directory: no mkdir, no compiler step, no rename.
\<close>

theorem one_trace_directory_after_finalization:
  "(reaches_streaming env boot sd \<and> truthy tn \<and>
    final_dir env tops tn (run_succeeds env) \<notin> fs w \<and>
    final_dir env tops tn (run_succeeds env) \<noteq> temp_dir env tn \<and>
    final_dir env tops tn (run_succeeds env) \<noteq> resolve env tops \<longrightarrow>
      (\<exists>out w'. run_automation env goal tn tops oc w = Some (out, w')
         \<and> (temp_dir env tn \<in> fs w') \<noteq> (final_dir env tops tn (run_succeeds env) \<in> fs w')
         \<and> (no_finalization_fault env \<and> start_time env \<noteq> 0 \<longrightarrow>
              temp_dir env tn \<notin> fs w'
              \<and> final_dir env tops tn (run_succeeds env) \<in> fs w'
              \<and> Rename (temp_dir env tn) (final_dir env tops tn (run_succeeds env))
                  \<in> set (new_events w w'))))
   \<and> (\<not> truthy tn \<and> run_automation env goal tn tops oc w = Some (out, w') \<longrightarrow>
        fs w' = fs w \<and> filter is_trace_event (new_events w w') = [])
   \<and> final_dir env tops tn ok =
       path_join (resolve env tops)
         (fstr tn @ (if ok then ''_PASS'' else ''_FAIL'') @ ''_'' @
          convert_timestamp_to_str env (start_time env))"
proof (intro conjI impI)
  let ?tmp = "temp_dir env tn"
  let ?outp = "resolve env tops"
  let ?final = "final_dir env tops tn (run_succeeds env)"
  assume h: "reaches_streaming env boot sd \<and> truthy tn \<and> ?final \<notin> fs w \<and>
    ?final \<noteq> ?tmp \<and> ?final \<noteq> ?outp"
  then have reach: "reaches_streaming env boot sd" and tn: "truthy tn"
    and fresh: "?final \<notin> fs w" "?final \<noteq> ?tmp" "?final \<noteq> ?outp" by simp_all
  from run_automation_reaches_traced[OF reach tn, of goal tops oc w]
  obtain w1 where run: "run_automation env goal tn tops oc w =
      Some (try_finally env goal tn oc (Some ?tmp) (Some ?outp) w1)"
    and f1: "fs w1 = insert ?tmp (insert ?outp (fs w))"
    and t1: "trail w1 = trail w @ PrepareOutputFiles # GetFirstDeviceId # boot @
                        context_events env tn tops" by blast
  obtain out w' where tf: "try_finally env goal tn oc (Some ?tmp) (Some ?outp) w1 = (out, w')"
    by (cases "try_finally env goal tn oc (Some ?tmp) (Some ?outp) w1")
  have tmp: "?tmp \<in> fs w1" using f1 by simp
  have fd: "path_join ?outp (new_name env tn (run_succeeds env)) = ?final"
    by (simp add: final_dir_def)
  note r = try_finally_traced_fs[OF tf tmp, unfolded fd]
  have one: "(?tmp \<in> fs w') \<noteq> (?final \<in> fs w')"
    using r(1) f1 fresh by auto
  have moved: "no_finalization_fault env \<and> start_time env \<noteq> 0 \<longrightarrow>
      ?tmp \<notin> fs w' \<and> ?final \<in> fs w' \<and> Rename ?tmp ?final \<in> set (new_events w w')"
  proof
    assume a: "no_finalization_fault env \<and> start_time env \<noteq> 0"
    with r(2) have fs': "fs w' = insert ?final (fs w1 - {?tmp})"
      and rn: "Rename ?tmp ?final \<in> set (new_events w1 w')" by simp_all
    from try_finally_frame[OF tf] obtain evs where t2: "trail w' = trail w1 @ evs" by blast
    with rn have "Rename ?tmp ?final \<in> set evs" by simp
    with t1 t2 have "Rename ?tmp ?final \<in> set (new_events w w')" by simp
    with fs' fresh show "?tmp \<notin> fs w' \<and> ?final \<in> fs w'
        \<and> Rename ?tmp ?final \<in> set (new_events w w')" by auto
  qed
  from run tf one moved
  show "\<exists>out w'. run_automation env goal tn tops oc w = Some (out, w')
         \<and> (?tmp \<in> fs w') \<noteq> (?final \<in> fs w')
         \<and> (no_finalization_fault env \<and> start_time env \<noteq> 0 \<longrightarrow>
              ?tmp \<notin> fs w' \<and> ?final \<in> fs w'
              \<and> Rename ?tmp ?final \<in> set (new_events w w'))"
    by (intro exI[of _ out] exI[of _ w']) simp
next
  assume h: "\<not> truthy tn \<and> run_automation env goal tn tops oc w = Some (out, w')"
  then have tn: "\<not> truthy tn" and run: "run_automation env goal tn tops oc w = Some (out, w')"
    by simp_all
  from run_automation_frame[OF run]
  obtain bt post where t: "trail w' = trail w @ PrepareOutputFiles # GetFirstDeviceId # bt @ post"
    and pb: "list_all (\<lambda>e. phase_of e = BOOTSTRAPPING) bt"
    and pp: "list_all (post_bootstrap_event (truthy tn) (stream_raises env \<noteq> None)) post"
    and f: "\<not> truthy tn \<longrightarrow> fs w' = fs w" by blast
  from f tn show "fs w' = fs w" by simp
  have "\<forall>e\<in>set bt. \<not> is_trace_event e"
  proof
    fix e assume "e \<in> set bt"
    with pb have "phase_of e = BOOTSTRAPPING" by (simp add: list_all_iff)
    then show "\<not> is_trace_event e" by (cases e) simp_all
  qed
  moreover have "\<forall>e\<in>set post. \<not> is_trace_event e"
    using pp tn by (simp add: list_all_iff post_bootstrap_event_def)
  ultimately show "filter is_trace_event (new_events w w') = []"
    using t by (simp add: filter_empty_conv)
next
  show "final_dir env tops tn ok =
       path_join (resolve env tops)
         (fstr tn @ (if ok then ''_PASS'' else ''_FAIL'') @ ''_'' @
          convert_timestamp_to_str env (start_time env))"
    by (simp add: final_dir_def new_name_def trace_status_def)
qed

theorem one_trace_directory_after_finalization_witness:
  "(\<exists>out w'. run_automation reference_env ''open settings'' (Some ''login'') ''traces'' None
                fresh_world = Some (out, w')
       \<and> ''/app/mobile_use/../traces/login'' \<notin> fs w'
       \<and> ''traces/login_PASS_2024-10-27_03-33-20'' \<in> fs w')
   \<and> (\<exists>out w'. run_automation reference_env ''open settings'' None ''traces'' None
                fresh_world = Some (out, w')
       \<and> fs w' = {}
       \<and> filter is_trace_event (new_events fresh_world w') = [])"
proof -
  let ?boot = "[RunServers ''emulator-5554'', StartDeviceHardwareBridge ''emulator-5554'',
       BridgeGetStatus, StartDeviceScreenApi, HealthCheck]"
  let ?sd = "\<lparr>platform = ''ANDROID'', width = 1080, height = 2400\<rparr>"
  have reach: "reaches_streaming reference_env ?boot ?sd"
    by (rule reference_reaches_streaming) (simp_all add: reference_env_def)
  have ok: "run_succeeds reference_env"
    by (simp add: run_succeeds_def reference_env_def)
  have td: "temp_dir reference_env (Some ''login'') = ''/app/mobile_use/../traces/login''"
    by (simp add: temp_dir_def reference_env_def path_join_def)
  have fd: "final_dir reference_env ''traces'' (Some ''login'') True =
      ''traces/login_PASS_2024-10-27_03-33-20''"
    by (simp add: final_dir_def new_name_def trace_status_def reference_env_def path_join_def)
  have rs: "resolve reference_env ''traces'' = ''traces''"
    by (simp add: reference_env_def)
  have nf: "no_finalization_fault reference_env" "start_time reference_env \<noteq> 0"
    by (simp_all add: no_finalization_fault_def reference_env_def)
  note thm1 = one_trace_directory_after_finalization[where env = reference_env
      and boot = ?boot and sd = ?sd and tn = "Some ''login''" and tops = "''traces''"
      and w = fresh_world and goal = "''open settings''" and oc = None, THEN conjunct1]
  have pre: "reaches_streaming reference_env ?boot ?sd \<and> truthy (Some ''login'') \<and>
    final_dir reference_env ''traces'' (Some ''login'') (run_succeeds reference_env)
      \<notin> fs fresh_world \<and>
    final_dir reference_env ''traces'' (Some ''login'') (run_succeeds reference_env)
      \<noteq> temp_dir reference_env (Some ''login'') \<and>
    final_dir reference_env ''traces'' (Some ''login'') (run_succeeds reference_env)
      \<noteq> resolve reference_env ''traces''"
    using reach ok by (simp add: td fd rs fresh_world_def)
  from thm1 pre nf ok
  have first: "\<exists>out w'. run_automation reference_env ''open settings'' (Some ''login'')
                ''traces'' None fresh_world = Some (out, w')
       \<and> ''/app/mobile_use/../traces/login'' \<notin> fs w'
       \<and> ''traces/login_PASS_2024-10-27_03-33-20'' \<in> fs w'"
    by (simp add: td fd) blast
  have nt: "\<not> truthy None" by simp
  from run_automation_reaches_untraced[OF reach nt, of "''open settings''" "''traces''" None
      fresh_world]
  obtain out w' where run: "run_automation reference_env ''open settings'' None ''traces'' None
      fresh_world = Some (out, w')"
    by (metis surj_pair)
  from one_trace_directory_after_finalization[where env = reference_env and tn = None
      and tops = "''traces''" and w = fresh_world and goal = "''open settings''" and oc = None
      and out = out and w' = w', THEN conjunct2, THEN conjunct1] run
  have "fs w' = fs fresh_world \<and> filter is_trace_event (new_events fresh_world w') = []"
    by simp
  with run have second: "\<exists>out w'. run_automation reference_env ''open settings'' None
                ''traces'' None fresh_world = Some (out, w')
       \<and> fs w' = {}
       \<and> filter is_trace_event (new_events fresh_world w') = []"
    by (auto simp: fresh_world_def)
  from first second show ?thesis by blast
qed

subsection \<open>The result of a run\<close>

lemma resolve_output_expected:
  "resolve_output env loc w =
     (Returned (expected_result (structured_output loc)
                  (case last_state loc of None \<Rightarrow> [] | Some st \<Rightarrow> agents_thoughts st)),
      (if expected_result (structured_output loc)
            (case last_state loc of None \<Rightarrow> [] | Some st \<Rightarrow> agents_thoughts st) = NoResult
       then w
       else emit [RecordEvents (results_output_path env)
                    (expected_result (structured_output loc)
                       (case last_state loc of None \<Rightarrow> [] | Some st \<Rightarrow> agents_thoughts st))] w))"
proof (cases "structured_output loc")
  case None
  show ?thesis
  proof (cases "last_state loc")
    case ls_None: None
    with None show ?thesis by (simp add: resolve_output_def)
  next
    case (Some st)
    with None show ?thesis
      by (cases "agents_thoughts st") (simp_all add: resolve_output_def)
  qed
next
  case (Some d)
  show ?thesis
  proof (cases d)
    case (Cons kv kvs)
    with Some show ?thesis
      by (cases "case last_state loc of None \<Rightarrow> [] | Some st \<Rightarrow> agents_thoughts st")
         (simp_all add: resolve_output_def)
  next
    case Nil
    show ?thesis
    proof (cases "last_state loc")
      case None
      with Some Nil show ?thesis by (simp add: resolve_output_def)
    next
      case st: (Some st)
      with Some Nil show ?thesis
        by (cases "agents_thoughts st") (simp_all add: resolve_output_def)
    qed
  qed
qed

lemma filter_other_phase:
  "list_all (\<lambda>e. phase_of e = p) evs \<Longrightarrow> p \<noteq> q \<Longrightarrow> filter (\<lambda>e. phase_of e = q) evs = []"
  by (auto simp: list_all_iff filter_empty_conv)

lemma generate_structured_output_value:
  "fst (generate_structured_output env oc g w) = fst (generate_structured_output env oc g w0)"
  by (auto simp: generate_structured_output_def split: option.splits sum.splits)

text \<open>The stream ends, and the \<^verbatim>\<open>finally\<close> block does not raise.\<close>

lemma try_finally_returns:
  assumes ends: "stream_raises env = None"
    and quiet: "\<And>loc w1. fs w1 = fs w \<Longrightarrow> fst (finally_block env tn tmp outp loc w1) = None"
    and tf: "try_finally env goal tn oc tmp outp w = (out, w')"
  shows "\<exists>r. out = Returned r
         \<and> r = (if snapshots (stream_chunks env) = [] then NoResult
               else expected_result
                      (fst (generate_structured_output env oc
                              (last (snapshots (stream_chunks env))) w))
                      (agents_thoughts (last (snapshots (stream_chunks env)))))
         \<and> filter (\<lambda>e. phase_of e = RESOLVING_OUTPUT) (new_events w w') =
             (if r = NoResult then [] else [RecordEvents (results_output_path env) r])"
proof -
  obtain ctl loc w1 where tb: "try_block env goal oc w = (ctl, loc, w1)"
    by (cases "try_block env goal oc w") auto
  from try_block_success[OF tb] have f1: "fs w1 = fs w" by simp
  obtain fin w2 where fb: "finally_block env tn tmp outp loc w1 = (fin, w2)"
    by (cases "finally_block env tn tmp outp loc w1")
  from quiet[OF f1, of loc] fb have fin: "fin = None" by simp
  from finally_block_frame[of env tn tmp outp loc w1] fb
  obtain evs2 where t2: "trail w2 = trail w1 @ evs2"
    and p2: "list_all (\<lambda>e. phase_of e = FINALIZING_TRACE) evs2" by auto
  note n2 = filter_other_phase[OF p2, of RESOLVING_OUTPUT]
  show ?thesis
  proof (cases "snapshots (stream_chunks env) = []")
    case True
    from try_block_no_snapshot[OF ends True, of goal oc w] tb
    have ctl: "ctl = ReturnNone"
      and t1: "trail w1 = trail w @ [GraphAstream (graph_input (RECURSION_LIMIT env) goal)]"
      by auto
    from tf tb fb fin ctl have "out = Returned NoResult" and "w' = w2"
      by (simp_all add: try_finally_def)
    with t1 t2 n2 True show ?thesis by simp
  next
    case False
    let ?g = "last (snapshots (stream_chunks env))"
    from try_block_completes[OF ends False, of goal oc w] tb
    obtain so evs1 where ctl: "ctl = FallThrough"
      and loc: "loc = \<lparr>success = True, last_state = Some ?g, structured_output = so\<rparr>"
      and so: "so = fst (generate_structured_output env oc ?g w)"
      and t1: "trail w1 = trail w @ GraphAstream (graph_input (RECURSION_LIMIT env) goal)
                         # thought_logs (events_output_path env) (stream_chunks env) @ evs1"
      and p1: "list_all (\<lambda>e. phase_of e = STREAMING) evs1"
      by auto
    let ?r = "expected_result so (agents_thoughts ?g)"
    from tf tb fb fin ctl have ro: "resolve_output env loc w2 = (out, w')"
      by (simp add: try_finally_def)
    have roe: "resolve_output env loc w2 =
        (Returned ?r,
         if ?r = NoResult then w2 else emit [RecordEvents (results_output_path env) ?r] w2)"
      using resolve_output_expected[of env loc w2] unfolding loc by simp
    with ro have out: "out = Returned ?r"
      and w': "w' = (if ?r = NoResult then w2
                     else emit [RecordEvents (results_output_path env) ?r] w2)"
      by simp_all
    have n1: "filter (\<lambda>e. phase_of e = RESOLVING_OUTPUT)
        (GraphAstream (graph_input (RECURSION_LIMIT env) goal)
          # thought_logs (events_output_path env) (stream_chunks env) @ evs1) = []"
      using filter_other_phase[OF thought_logs_streaming, of RESOLVING_OUTPUT]
        filter_other_phase[OF p1, of RESOLVING_OUTPUT]
      by simp
    have "filter (\<lambda>e. phase_of e = RESOLVING_OUTPUT) (new_events w w') =
        (if ?r = NoResult then [] else [RecordEvents (results_output_path env) ?r])"
    proof (cases "?r = NoResult")
      case True
      with w' t1 t2 have "new_events w w' =
          (GraphAstream (graph_input (RECURSION_LIMIT env) goal)
            # thought_logs (events_output_path env) (stream_chunks env) @ evs1) @ evs2"
        by simp
      with n1 n2 True show ?thesis by simp
    next
      case False
      with w' t1 t2 have "new_events w w' =
          (GraphAstream (graph_input (RECURSION_LIMIT env) goal)
            # thought_logs (events_output_path env) (stream_chunks env) @ evs1) @ evs2
          @ [RecordEvents (results_output_path env) ?r]"
        by simp
      with n1 n2 False show ?thesis by simp
    qed
    with out so False show ?thesis by simp
  qed
qed

lemma expected_result_fallback:
  "expected_result None ts = (if ts = [] then NoResult else Thought (last ts))"
  "expected_result (Some []) ts = (if ts = [] then NoResult else Thought (last ts))"
  by (cases ts; simp)+

lemma finally_block_quiet_untraced:
  "fst (finally_block env tn None None loc w1) = None"
  by (simp add: finally_block_skipped)

lemma finally_block_quiet_traced:
  assumes "start_time env = 0 \<or> no_finalization_fault env" and "tmp \<in> fs w1"
  shows "fst (finally_block env tn (Some tmp) (Some outp) loc w1) = None"
proof (cases "start_time env = 0")
  case True
  then show ?thesis by (simp add: finally_block_skipped(3))
next
  case False
  with assms(1) have "no_finalization_fault env" by simp
  from finally_block_completes[OF this assms(2) False, of tn outp loc]
  show ?thesis by auto
qed

text \<open>
  Claim C7. Take a run that gets as far as the \<^verbatim>\<open>try\<close> statement, whose stream ends
  without raising and whose finalization does not raise. It returns, and what it returns
  is one of three shapes chosen in this order: the structured output when the generator
  was asked and gave a non-empty one, else the last thought of the last snapshot when it
  has thoughts, else nothing (also when no snapshot came); the results sink gets that
  result, once, unless it is nothing. When the generator is asked and raises, the result
  is the fallback to the last thought, and the run has passed its success checkpoint:
  \<^verbatim>\<open>success\<close> is set, and a traced run is renamed with the \<open>PASS\<close> tag.
  In terms of what the outputter itself answers on the last snapshot: when it is asked
  and answers a non-empty payload, that payload is the result, whatever thoughts the
  snapshot carries; when it is not asked (no output configuration, or one that needs no
  structured format), or answers nothing or an empty payload, the result is the last
  thought of the last snapshot, or nothing when it has no thoughts.
\<close>

theorem result_shapes_in_order:
  assumes "reaches_streaming env boot sd"
    and "stream_raises env = None"
    and "\<not> truthy tn \<or> start_time env = 0 \<or> no_finalization_fault env"
  shows "\<exists>r w'.
           run_automation env goal tn tops oc w = Some (Returned r, w')
         \<and> r = (if snapshots (stream_chunks env) = [] then NoResult
               else expected_result
                      (fst (generate_structured_output env oc
                              (last (snapshots (stream_chunks env))) w))
                      (agents_thoughts (last (snapshots (stream_chunks env)))))
         \<and> filter (\<lambda>e. phase_of e = RESOLVING_OUTPUT) (new_events w w') =
             (if r = NoResult then [] else [RecordEvents (results_output_path env) r])
         \<and> (oc \<noteq> Some c \<or> \<not> needs_structured_format env c \<or>
            outputter env c (last (snapshots (stream_chunks env))) \<noteq> Inl err \<or>
            snapshots (stream_chunks env) = [] \<or>
              r = expected_result None (agents_thoughts (last (snapshots (stream_chunks env))))
              \<and> success (fst (snd (try_block env goal oc w)))
              \<and> (\<not> truthy tn \<or> start_time env = 0 \<or>
                   Rename (temp_dir env tn) (final_dir env tops tn True)
                     \<in> set (new_events w w')))
         \<and> (oc \<noteq> Some c \<or> \<not> needs_structured_format env c \<or>
            outputter env c (last (snapshots (stream_chunks env))) \<noteq> Inr (Some (kv # kvs)) \<or>
            snapshots (stream_chunks env) = [] \<or>
              r = Structured (kv # kvs))
         \<and> (oc \<noteq> Some c \<or> \<not> needs_structured_format env c \<or>
            (outputter env c (last (snapshots (stream_chunks env))) \<noteq> Inr None \<and>
             outputter env c (last (snapshots (stream_chunks env))) \<noteq> Inr (Some []) \<and>
             outputter env c (last (snapshots (stream_chunks env))) \<noteq> Inl err) \<or>
            snapshots (stream_chunks env) = [] \<or>
              r = (if agents_thoughts (last (snapshots (stream_chunks env))) = [] then NoResult
                   else Thought (last (agents_thoughts (last (snapshots (stream_chunks env)))))))
         \<and> ((oc \<noteq> None \<and> (oc \<noteq> Some c \<or> needs_structured_format env c)) \<or>
            snapshots (stream_chunks env) = [] \<or>
              r = (if agents_thoughts (last (snapshots (stream_chunks env))) = [] then NoResult
                   else Thought (last (agents_thoughts (last (snapshots (stream_chunks env)))))))"
proof -
  let ?g = "last (snapshots (stream_chunks env))"
  let ?tmp = "if truthy tn then Some (temp_dir env tn) else None"
  let ?outp = "if truthy tn then Some (resolve env tops) else None"
  have "\<exists>w1. run_automation env goal tn tops oc w =
      Some (try_finally env goal tn oc ?tmp ?outp w1)
      \<and> trail w1 = trail w @ PrepareOutputFiles # GetFirstDeviceId # boot @
                        context_events env tn tops
      \<and> (truthy tn \<longrightarrow> temp_dir env tn \<in> fs w1)"
  proof (cases "truthy tn")
    case True
    from run_automation_reaches_traced[OF assms(1) True, of goal tops oc w] True
    show ?thesis by auto
  next
    case False
    from run_automation_reaches_untraced[OF assms(1) False, of goal tops oc w] False
    show ?thesis by auto
  qed
  then obtain w1 where run: "run_automation env goal tn tops oc w =
      Some (try_finally env goal tn oc ?tmp ?outp w1)"
    and t1: "trail w1 = trail w @ PrepareOutputFiles # GetFirstDeviceId # boot @
                        context_events env tn tops"
    and f1: "truthy tn \<longrightarrow> temp_dir env tn \<in> fs w1" by blast
  obtain out w' where tf: "try_finally env goal tn oc ?tmp ?outp w1 = (out, w')"
    by (cases "try_finally env goal tn oc ?tmp ?outp w1")
  have quiet: "fst (finally_block env tn ?tmp ?outp loc w2) = None" if "fs w2 = fs w1" for loc w2
  proof (cases "truthy tn")
    case True
    with assms(3) f1 that show ?thesis
      by (simp add: finally_block_quiet_traced)
  next
    case False
    then show ?thesis by (simp add: finally_block_quiet_untraced)
  qed
  from try_finally_returns[OF assms(2) quiet tf]
  obtain r where out: "out = Returned r"
    and r: "r = (if snapshots (stream_chunks env) = [] then NoResult
               else expected_result (fst (generate_structured_output env oc ?g w1))
                      (agents_thoughts ?g))"
    and sink1: "filter (\<lambda>e. phase_of e = RESOLVING_OUTPUT) (new_events w1 w') =
             (if r = NoResult then [] else [RecordEvents (results_output_path env) r])"
    by blast
  from try_finally_frame[OF tf] obtain evs where t2: "trail w' = trail w1 @ evs" by blast
  have ce: "filter (\<lambda>e. phase_of e = RESOLVING_OUTPUT) (context_events env tn tops) = []"
    by (simp add: context_events_def)
  from assms(1) have "truthy (first_device_id env)"
    and "bootstrap_loop (settings env) (attempts env) (fstr (first_device_id env)) 0 [] =
      Some (True, boot)" by (simp_all add: reaches_streaming_def)
  from bootstrap_loop_frame[OF this(2)]
  have "list_all (\<lambda>e. phase_of e = BOOTSTRAPPING) boot" by simp
  from filter_other_phase[OF this, of RESOLVING_OUTPUT]
  have bt: "filter (\<lambda>e. phase_of e = RESOLVING_OUTPUT) boot = []" by simp
  have sink: "filter (\<lambda>e. phase_of e = RESOLVING_OUTPUT) (new_events w w') =
             (if r = NoResult then [] else [RecordEvents (results_output_path env) r])"
    using sink1 t1 t2 ce bt by simp
  have r': "r = (if snapshots (stream_chunks env) = [] then NoResult
               else expected_result (fst (generate_structured_output env oc ?g w))
                      (agents_thoughts ?g))"
    using r generate_structured_output_value[of env oc ?g w1 w] by simp
  have gen: "oc \<noteq> Some c \<or> \<not> needs_structured_format env c \<or>
            outputter env c ?g \<noteq> Inl err \<or> snapshots (stream_chunks env) = [] \<or>
              r = expected_result None (agents_thoughts ?g)
              \<and> success (fst (snd (try_block env goal oc w)))
              \<and> (\<not> truthy tn \<or> start_time env = 0 \<or>
                   Rename (temp_dir env tn) (final_dir env tops tn True)
                     \<in> set (new_events w w'))"
  proof (cases "oc = Some c \<and> needs_structured_format env c \<and>
            outputter env c ?g = Inl err \<and> snapshots (stream_chunks env) \<noteq> []")
    case False
    then show ?thesis by blast
  next
    case True
    then have "fst (generate_structured_output env oc ?g w) = None"
      by (simp add: generate_structured_output_def)
    with r' True have a: "r = expected_result None (agents_thoughts ?g)" by simp
    have ok: "run_succeeds env" using assms(2) True by (simp add: run_succeeds_def)
    obtain ctl loc wb where tb: "try_block env goal oc w = (ctl, loc, wb)"
      by (cases "try_block env goal oc w") auto
    from try_block_success[OF tb] ok tb
    have b: "success (fst (snd (try_block env goal oc w)))" by simp
    have c: "\<not> truthy tn \<or> start_time env = 0 \<or>
        Rename (temp_dir env tn) (final_dir env tops tn True) \<in> set (new_events w w')"
    proof (cases "truthy tn \<and> start_time env \<noteq> 0")
      case False
      then show ?thesis by blast
    next
      case tr: True
      with assms(3) have nf: "no_finalization_fault env" by simp
      from tr tf have tf': "try_finally env goal tn oc (Some (temp_dir env tn))
          (Some (resolve env tops)) w1 = (out, w')" by simp
      from tr f1 have "temp_dir env tn \<in> fs w1" by simp
      from try_finally_traced_fs(2)[OF tf' this nf] tr ok
      have "Rename (temp_dir env tn) (final_dir env tops tn True) \<in> set (new_events w1 w')"
        by (simp add: final_dir_def)
      with t2 have "Rename (temp_dir env tn) (final_dir env tops tn True) \<in> set evs" by simp
      with t1 t2 show ?thesis by simp
    qed
    from a b c show ?thesis by blast
  qed
  have str: "oc \<noteq> Some c \<or> \<not> needs_structured_format env c \<or>
            outputter env c ?g \<noteq> Inr (Some (kv # kvs)) \<or> snapshots (stream_chunks env) = [] \<or>
              r = Structured (kv # kvs)"
  proof (cases "oc = Some c \<and> needs_structured_format env c \<and>
            outputter env c ?g = Inr (Some (kv # kvs)) \<and> snapshots (stream_chunks env) \<noteq> []")
    case False
    then show ?thesis by blast
  next
    case True
    then have "fst (generate_structured_output env oc ?g w) = Some (kv # kvs)"
      by (simp add: generate_structured_output_def)
    with r' True show ?thesis by simp
  qed
  have emp: "oc \<noteq> Some c \<or> \<not> needs_structured_format env c \<or>
            (outputter env c ?g \<noteq> Inr None \<and> outputter env c ?g \<noteq> Inr (Some []) \<and>
             outputter env c ?g \<noteq> Inl err) \<or>
            snapshots (stream_chunks env) = [] \<or>
              r = (if agents_thoughts ?g = [] then NoResult
                   else Thought (last (agents_thoughts ?g)))"
  proof (cases "oc = Some c \<and> needs_structured_format env c \<and>
            (outputter env c ?g = Inr None \<or> outputter env c ?g = Inr (Some []) \<or>
             outputter env c ?g = Inl err) \<and> snapshots (stream_chunks env) \<noteq> []")
    case False
    then show ?thesis by blast
  next
    case True
    then have "fst (generate_structured_output env oc ?g w) = None \<or>
        fst (generate_structured_output env oc ?g w) = Some []"
      by (auto simp add: generate_structured_output_def)
    with r' True show ?thesis
      by (auto simp add: expected_result_fallback)
  qed
  have unasked: "(oc \<noteq> None \<and> (oc \<noteq> Some c \<or> needs_structured_format env c)) \<or>
            snapshots (stream_chunks env) = [] \<or>
              r = (if agents_thoughts ?g = [] then NoResult
                   else Thought (last (agents_thoughts ?g)))"
  proof (cases "(oc = None \<or> oc = Some c \<and> \<not> needs_structured_format env c) \<and>
            snapshots (stream_chunks env) \<noteq> []")
    case False
    then show ?thesis by auto
  next
    case True
    then have "fst (generate_structured_output env oc ?g w) = None"
      by (auto simp add: generate_structured_output_def)
    with r' True show ?thesis
      by (simp add: expected_result_fallback)
  qed
  from run tf out have ret: "run_automation env goal tn tops oc w = Some (Returned r, w')"
    by simp
  from ret r' sink gen str emp unasked show ?thesis
    by (intro exI[of _ r] exI[of _ w'] conjI)
qed

theorem result_shapes_in_order_witness:
  "(\<exists>w'. run_automation failing_outputter_env ''open settings'' (Some ''login'') ''traces''
            (Some \<lparr>output_description = Some ''the screen'', structured_output_format = None\<rparr>)
            fresh_world = Some (Returned (Thought ''settings is open''), w')
        \<and> filter (\<lambda>e. phase_of e = RESOLVING_OUTPUT) (new_events fresh_world w') =
            [RecordEvents ''results.json'' (Thought ''settings is open'')]
        \<and> Rename ''/app/mobile_use/../traces/login'' ''traces/login_PASS_2024-10-27_03-33-20''
            \<in> set (new_events fresh_world w'))
   \<and> (\<exists>w'. run_automation reference_env ''open settings'' None ''traces''
            (Some \<lparr>output_description = Some ''the screen'', structured_output_format = None\<rparr>)
            fresh_world = Some (Returned (Structured [(''screen'', ''settings'')]), w'))"
proof -
  let ?boot = "[RunServers ''emulator-5554'', StartDeviceHardwareBridge ''emulator-5554'',
       BridgeGetStatus, StartDeviceScreenApi, HealthCheck]"
  let ?sd = "\<lparr>platform = ''ANDROID'', width = 1080, height = 2400\<rparr>"
  let ?cfg = "\<lparr>output_description = Some ''the screen'', structured_output_format = None\<rparr>"
  have reach: "reaches_streaming failing_outputter_env ?boot ?sd"
    by (rule reference_reaches_streaming)
       (simp_all add: failing_outputter_env_def reference_env_def)
  have ends: "stream_raises failing_outputter_env = None"
    by (simp add: failing_outputter_env_def reference_env_def)
  have nf: "\<not> truthy (Some ''login'') \<or> start_time failing_outputter_env = 0 \<or>
      no_finalization_fault failing_outputter_env"
    by (simp add: no_finalization_fault_def failing_outputter_env_def reference_env_def)
  have sn: "snapshots (stream_chunks failing_outputter_env) =
      [(graph_input 400 ''open settings'')\<lparr>agents_thoughts := [''tap the icon'']\<rparr>,
       (graph_input 400 ''open settings'')
          \<lparr>messages := [AIMessage ''done''],
           agents_thoughts := [''tap the icon'', ''settings is open'']\<rparr>]"
    by (simp add: failing_outputter_env_def reference_env_def)
  have td: "temp_dir failing_outputter_env (Some ''login'') = ''/app/mobile_use/../traces/login''"
    by (simp add: temp_dir_def failing_outputter_env_def reference_env_def path_join_def)
  have fd: "final_dir failing_outputter_env ''traces'' (Some ''login'') True =
      ''traces/login_PASS_2024-10-27_03-33-20''"
    by (simp add: final_dir_def new_name_def trace_status_def failing_outputter_env_def
        reference_env_def path_join_def)
  have misc: "needs_structured_format failing_outputter_env ?cfg"
    "outputter failing_outputter_env ?cfg st = Inl ''no schema''"
    "results_output_path failing_outputter_env = ''results.json''"
    "start_time failing_outputter_env \<noteq> 0" for st
    by (simp_all add: failing_outputter_env_def reference_env_def)
  from result_shapes_in_order[OF reach ends nf, where goal = "''open settings''"
      and tops = "''traces''" and oc = "Some ?cfg" and w = fresh_world and c = ?cfg
      and err = "''no schema''" and kv = "(''screen'', ''settings'')" and kvs = "[]"]
  have first: "\<exists>w'. run_automation failing_outputter_env ''open settings'' (Some ''login'')
            ''traces'' (Some ?cfg) fresh_world = Some (Returned (Thought ''settings is open''), w')
        \<and> filter (\<lambda>e. phase_of e = RESOLVING_OUTPUT) (new_events fresh_world w') =
            [RecordEvents ''results.json'' (Thought ''settings is open'')]
        \<and> Rename ''/app/mobile_use/../traces/login'' ''traces/login_PASS_2024-10-27_03-33-20''
            \<in> set (new_events fresh_world w')"
    by (simp add: sn td fd misc generate_structured_output_def) blast
  have reach2: "reaches_streaming reference_env ?boot ?sd"
    by (rule reference_reaches_streaming) (simp_all add: reference_env_def)
  have ends2: "stream_raises reference_env = None" by (simp add: reference_env_def)
  have nf2: "\<not> truthy None \<or> start_time reference_env = 0 \<or> no_finalization_fault reference_env"
    by simp
  have sn2: "snapshots (stream_chunks reference_env) =
      [(graph_input 400 ''open settings'')\<lparr>agents_thoughts := [''tap the icon'']\<rparr>,
       (graph_input 400 ''open settings'')
          \<lparr>messages := [AIMessage ''done''],
           agents_thoughts := [''tap the icon'', ''settings is open'']\<rparr>]"
    by (simp add: reference_env_def)
  have misc2: "needs_structured_format reference_env ?cfg"
    "outputter reference_env ?cfg st = Inr (Some [(''screen'', ''settings'')])" for st
    by (simp_all add: reference_env_def)
  from result_shapes_in_order[OF reach2 ends2 nf2, where goal = "''open settings''"
      and tops = "''traces''" and oc = "Some ?cfg" and w = fresh_world and c = ?cfg
      and err = "''no schema''" and kv = "(''screen'', ''settings'')" and kvs = "[]"]
  have second: "\<exists>w'. run_automation reference_env ''open settings'' None ''traces''
            (Some ?cfg) fresh_world = Some (Returned (Structured [(''screen'', ''settings'')]), w')"
    by (simp add: sn2 misc2 generate_structured_output_def) blast
  from first second show ?thesis by blast
qed

subsection \<open>No result when the stream raises\<close>

text \<open>
  Claim C10. When the stream raises, a run that returns at all hands back no result
  value: it raises, or (when it never got to the stream) returns nothing. It raises
  whenever it got as far as the \<^verbatim>\<open>try\<close> statement. Nothing is written to the results
  sink, whatever thoughts the snapshots before the failure carried: the trail of the run
  has no event of the output-resolution phase.
\<close>

theorem no_result_when_stream_raises:
  assumes "stream_raises env = Some m"
    and "run_automation env goal tn tops oc w = Some (out, w')"
  shows "(out = Returned NoResult \<or> (\<exists>e. out = Raised e))
         \<and> filter (\<lambda>e. phase_of e = RESOLVING_OUTPUT) (new_events w w') = []
         \<and> (\<forall>p r. RecordEvents p r \<notin> set (new_events w w'))
         \<and> (\<not> reaches_streaming env boot sd \<or> (\<exists>e. out = Raised e))"
proof -
  from run_automation_frame[OF assms(2)]
  obtain bt post where t: "trail w' = trail w @ PrepareOutputFiles # GetFirstDeviceId # bt @ post"
    and pb: "list_all (\<lambda>e. phase_of e = BOOTSTRAPPING) bt"
    and pp: "list_all (post_bootstrap_event (truthy tn) (stream_raises env \<noteq> None)) post"
    and o: "stream_raises env \<noteq> None \<longrightarrow> out = Returned NoResult \<or> (\<exists>e. out = Raised e)"
    by blast
  have a: "out = Returned NoResult \<or> (\<exists>e. out = Raised e)" using o assms(1) by simp
  have "\<forall>e\<in>set post. phase_of e \<noteq> RESOLVING_OUTPUT"
    using pp assms(1) by (simp add: list_all_iff post_bootstrap_event_def)
  moreover have "\<forall>e\<in>set bt. phase_of e \<noteq> RESOLVING_OUTPUT"
    using pb by (simp add: list_all_iff)
  ultimately have b: "filter (\<lambda>e. phase_of e = RESOLVING_OUTPUT) (new_events w w') = []"
    using t by (simp add: filter_empty_conv)
  have c: "\<forall>p r. RecordEvents p r \<notin> set (new_events w w')"
  proof (intro allI notI)
    fix p r
    assume "RecordEvents p r \<in> set (new_events w w')"
    with b have "phase_of (RecordEvents p r) \<noteq> RESOLVING_OUTPUT"
      unfolding filter_empty_conv by blast
    then show False by simp
  qed
  have d: "\<not> reaches_streaming env boot sd \<or> (\<exists>e. out = Raised e)"
  proof (cases "reaches_streaming env boot sd")
    case False
    then show ?thesis by simp
  next
    case True
    then have dev: "truthy (first_device_id env)"
      and bl: "bootstrap_loop (settings env) (attempts env) (fstr (first_device_id env)) 0 [] =
        Some (True, boot)" by (simp_all add: reaches_streaming_def)
    from run_automation_proceeds[OF dev bl, of goal tn tops oc w] assms(2)
    have "run_after_bootstrap env goal tn tops oc (fstr (first_device_id env))
        (emit (PrepareOutputFiles # GetFirstDeviceId # boot) w) = (out, w')" by simp
    from run_after_bootstrap_frame[OF this] assms(1) show ?thesis by simp
  qed
  from a b c d show ?thesis by blast
qed

theorem no_result_when_stream_raises_witness:
  "\<exists>out w'. run_automation crashing_env ''open settings'' None ''traces'' None fresh_world =
               Some (out, w')
     \<and> (\<exists>e. out = Raised e)
     \<and> filter (\<lambda>e. phase_of e = RESOLVING_OUTPUT) (new_events fresh_world w') = []
     \<and> agents_thoughts (last (snapshots (stream_chunks crashing_env))) =
         [''tap the icon'', ''settings is open'']"
proof -
  let ?boot = "[RunServers ''emulator-5554'', StartDeviceHardwareBridge ''emulator-5554'',
       BridgeGetStatus, StartDeviceScreenApi, HealthCheck]"
  let ?sd = "\<lparr>platform = ''ANDROID'', width = 1080, height = 2400\<rparr>"
  have reach: "reaches_streaming crashing_env ?boot ?sd"
    by (rule reference_reaches_streaming) (simp_all add: crashing_env_def reference_env_def)
  have raises: "stream_raises crashing_env = Some ''planner crashed''"
    by (simp add: crashing_env_def)
  have nt: "\<not> truthy None" by simp
  from run_automation_reaches_untraced[OF reach nt, of "''open settings''" "''traces''" None
      fresh_world]
  obtain out w' where run: "run_automation crashing_env ''open settings'' None ''traces'' None
      fresh_world = Some (out, w')"
    by (metis surj_pair)
  from no_result_when_stream_raises[OF raises run, of ?boot ?sd] reach
  have "(\<exists>e. out = Raised e)
      \<and> filter (\<lambda>e. phase_of e = RESOLVING_OUTPUT) (new_events fresh_world w') = []"
    by simp
  moreover have "agents_thoughts (last (snapshots (stream_chunks crashing_env))) =
         [''tap the icon'', ''settings is open'']"
    by (simp add: crashing_env_def reference_env_def)
  ultimately show ?thesis using run by blast
qed

end
